theory Spec2Isabelle
  imports Complex_Main "HOL-Library.Product_Lexorder" "HOL-Library.Log_Nat"
begin

section \<open>Elements, the element store and the element capabilities\<close>

text \<open>
  The report module (\<^verbatim>\<open>reportbro.py\<close>) drives element objects that are declared in the
  element module, which is not among the sources. An element is a mutable object that is
  shared between a band's \<^verbatim>\<open>doc_elements\<close>, its \<^verbatim>\<open>sorted_elements\<close>, and the
  \<^verbatim>\<open>predecessor\<close> / \<^verbatim>\<open>successors\<close> links of other elements; the band code reads
  a predecessor's fields through that link. The model therefore keeps the objects in a
  store (object reference to element state); lists and links hold references.

  The fields are the ones the band code reads or writes. \<^verbatim>\<open>impl\<close> stands for the state
  that only the element's own methods use.
\<close>

type_synonym ref = nat

datatype elem_class = PageBreakElement | TableElement | OtherElement

record 's element =
  elem_class :: elem_class
  el_id :: int
  el_x :: int
  el_y :: int
  bottom :: int
  sort_order :: int
  spreadsheet_hide :: bool
  first_render_element :: bool
  rendering_complete :: bool
  render_bottom :: int
  predecessor :: "ref option"
  successors :: "ref list"
  impl :: 's

type_synonym 's store = "ref \<Rightarrow> 's element"

text \<open>The evaluation context, as far as the renderers use it: the page counter.
  Modelled from the spec: the context class is not among the sources; the spec gives it a
  page-number counter with increment, get and set-total.\<close>

record Context =
  page_number :: nat
  page_count :: nat

definition inc_page_number :: "Context \<Rightarrow> Context" where
  "inc_page_number ctx = ctx\<lparr>page_number := page_number ctx + 1\<rparr>"

definition set_page_count :: "nat \<Rightarrow> Context \<Rightarrow> Context" where
  "set_page_count n ctx = ctx\<lparr>page_count := n\<rparr>"

text \<open>
  The element methods the bands call. Their code is in the element module, so they are
  parameters of the model: every theorem below holds for all of them. Each method acts on
  the element it is called on. A fragment (\<^verbatim>\<open>render_elem\<close>) has type \<open>'f\<close>.
  \<^item> \<^verbatim>\<open>elem.prepare(ctx, pdf_doc, only_verify)\<close>
  \<^item> \<^verbatim>\<open>elem.is_printed(ctx)\<close>
  \<^item> \<^verbatim>\<open>elem.get_next_render_element(offset_y, container_height, ctx, pdf_doc)\<close>,
    returning \<^verbatim>\<open>(render_elem, complete)\<close> where \<^verbatim>\<open>render_elem\<close> may be \<^verbatim>\<open>None\<close>
  \<^item> \<^verbatim>\<open>elem.finish_empty_element(offset_y)\<close>
  \<^item> \<^verbatim>\<open>elem.render_spreadsheet(row, col, ctx, workbook, worksheet)\<close>, returning the row
    after the element
  \<^item> \<^verbatim>\<open>elem.get_column_count()\<close> (tables)
  \<^item> \<^verbatim>\<open>elem.cleanup()\<close>
\<close>

record ('s, 'f) elem_ops =
  elem_prepare :: "Context \<Rightarrow> bool \<Rightarrow> bool \<Rightarrow> 's element \<Rightarrow> 's element"
  is_printed :: "Context \<Rightarrow> 's element \<Rightarrow> bool"
  get_next_render_element ::
    "Context \<Rightarrow> int \<Rightarrow> int \<Rightarrow> 's element \<Rightarrow> ('f option \<times> bool) \<times> 's element"
  finish_empty_element :: "int \<Rightarrow> 's element \<Rightarrow> 's element"
  elem_render_spreadsheet :: "Context \<Rightarrow> int \<Rightarrow> int \<Rightarrow> 's element \<Rightarrow> int"
  get_column_count :: "'s element \<Rightarrow> int"
  elem_cleanup :: "'s element \<Rightarrow> 's element"

text \<open>Modelled from the spec: \<^verbatim>\<open>set_predecessor\<close> is a method of the element base class.
  Following the spec's data model (each element has at most one predecessor and knows its
  dependents) it stores the link and registers the element with its predecessor.\<close>

definition set_predecessor :: "ref \<Rightarrow> ref \<Rightarrow> 's store \<Rightarrow> 's store" where
  "set_predecessor r p \<sigma> =
     (let \<sigma>1 = \<sigma>(r := (\<sigma> r)\<lparr>predecessor := Some p\<rparr>)
      in \<sigma>1(p := (\<sigma>1 p)\<lparr>successors := successors (\<sigma>1 p) @ [r]\<rparr>))"

section \<open>Bands\<close>

datatype BandType = BandType_header | BandType_content | BandType_footer

text \<open>An entry of \<^verbatim>\<open>render_elements\<close>: a fragment an element produced, or the
  \<^verbatim>\<open>PageBreakElement(report, dict(y=-1))\<close> that marks the end of a page.\<close>

datatype 'f render_item = Fragment 'f | PageBreakSentinel

text \<open>\<^verbatim>\<open>sorted_elements\<close> and \<^verbatim>\<open>render_elements\<close> are \<^verbatim>\<open>None\<close> in a new band; both
  renderers call \<^verbatim>\<open>prepare\<close>, which assigns them, before anything reads them, so the
  model starts them as empty lists.\<close>

record 'f ReportBand =
  band :: BandType
  allow_page_break :: bool
  doc_elements :: "ref list"
  sorted_elements :: "ref list"
  render_elements :: "'f render_item list"
  explicit_page_break :: bool
  page_y :: int
  band_width :: int
  band_height :: int

subsection \<open>\<^verbatim>\<open>ReportBand.prepare\<close>\<close>

text \<open>The first loop: an element is taken when a pdf document is given, or it is not
  hidden in spreadsheets, or the call only verifies. A band that cannot break resets the
  element so that it renders again on the next page.\<close>

definition prepare_element :: "('s, 'f) elem_ops \<Rightarrow> Context \<Rightarrow> bool \<Rightarrow> bool \<Rightarrow> bool \<Rightarrow>
    's element \<Rightarrow> 's element" where
  "prepare_element ops ctx pdf_doc only_verify allow_break e =
     (let e1 = elem_prepare ops ctx pdf_doc only_verify e
      in if \<not> allow_break then e1\<lparr>first_render_element := True, rendering_complete := False\<rparr>
         else e1)"

fun prepare_elements :: "('s, 'f) elem_ops \<Rightarrow> Context \<Rightarrow> bool \<Rightarrow> bool \<Rightarrow> bool \<Rightarrow>
    ref list \<Rightarrow> ref list \<times> 's store \<Rightarrow> ref list \<times> 's store" where
  "prepare_elements ops ctx pdf_doc only_verify allow_break [] acc = acc"
| "prepare_elements ops ctx pdf_doc only_verify allow_break (r # rs) (sel, \<sigma>) =
     (if pdf_doc \<or> \<not> spreadsheet_hide (\<sigma> r) \<or> only_verify
      then prepare_elements ops ctx pdf_doc only_verify allow_break rs
             (sel @ [r], \<sigma>(r := prepare_element ops ctx pdf_doc only_verify allow_break (\<sigma> r)))
      else prepare_elements ops ctx pdf_doc only_verify allow_break rs (sel, \<sigma>))"

text \<open>The predecessor scan of element \<open>i\<close>: \<^verbatim>\<open>for j in range(i-1, -1, -1)\<close> visits the
  elements before it in the sorted list, nearest first.\<close>

definition scan_step :: "'s store \<Rightarrow> ref \<Rightarrow> ref option \<Rightarrow> ref \<Rightarrow> ref option" where
  "scan_step \<sigma> r pred r2 =
     (if bottom (\<sigma> r2) \<le> el_y (\<sigma> r) \<and>
         (case pred of None \<Rightarrow> True | Some p \<Rightarrow> bottom (\<sigma> r2) > bottom (\<sigma> p))
      then Some r2 else pred)"

definition find_predecessor :: "'s store \<Rightarrow> ref list \<Rightarrow> nat \<Rightarrow> ref option" where
  "find_predecessor \<sigma> s i = foldl (scan_step \<sigma> (s ! i)) None (rev (take i s))"

definition link_predecessor :: "ref list \<Rightarrow> 's store \<Rightarrow> nat \<Rightarrow> 's store" where
  "link_predecessor s \<sigma> i =
     (case find_predecessor \<sigma> s i of
        None \<Rightarrow> \<sigma>
      | Some p \<Rightarrow>
          if elem_class (\<sigma> p) \<noteq> PageBreakElement then set_predecessor (s ! i) p \<sigma> else \<sigma>)"

definition ReportBand_prepare :: "('s, 'f) elem_ops \<Rightarrow> Context \<Rightarrow> bool \<Rightarrow> bool \<Rightarrow>
    'f ReportBand \<Rightarrow> 's store \<Rightarrow> 'f ReportBand \<times> 's store" where
  "ReportBand_prepare ops ctx pdf_doc only_verify b \<sigma> =
     (let (sel, \<sigma>1) = prepare_elements ops ctx pdf_doc only_verify (allow_page_break b)
                        (doc_elements b) ([], \<sigma>)
      in if pdf_doc
         then let s = sort_key (\<lambda>r. (el_y (\<sigma>1 r), sort_order (\<sigma>1 r))) sel;
                  \<sigma>2 = foldl (link_predecessor s) \<sigma>1 [0..<length s]
              in (b\<lparr>sorted_elements := s, render_elements := []\<rparr>, \<sigma>2)
         else (b\<lparr>sorted_elements := sort_key (\<lambda>r. (el_y (\<sigma>1 r), el_x (\<sigma>1 r))) sel\<rparr>, \<sigma>1))"

subsection \<open>\<^verbatim>\<open>ReportBand.create_render_elements\<close>\<close>

text \<open>The local variables of one call, the band and the store, as the \<^verbatim>\<open>while\<close> loop
  threads them. \<^verbatim>\<open>completed_elements\<close> is a dictionary keyed by element id, of which only
  the keys are read. \<open>returned\<close> records the \<^verbatim>\<open>return True\<close> inside the loop.\<close>

record ('s, 'f) pass_state =
  ps_i :: nat
  new_page :: bool
  processed_elements :: "ref list"
  completed_elements :: "int set"
  set_explicit_page_break :: bool
  returned :: bool
  ps_band :: "'f ReportBand"
  ps_store :: "'s store"

definition delete_at :: "nat \<Rightarrow> 'a list \<Rightarrow> 'a list" where
  "delete_at i xs = take i xs @ drop (Suc i) xs"

text \<open>\<^verbatim>\<open>elem.predecessor and (elem.predecessor.id not in completed_elements or
  not elem.predecessor.rendering_complete)\<close>\<close>

definition predecessor_pending :: "'s store \<Rightarrow> int set \<Rightarrow> 's element \<Rightarrow> bool" where
  "predecessor_pending \<sigma> completed elem =
     (case predecessor elem of
        None \<Rightarrow> False
      | Some p \<Rightarrow> el_id (\<sigma> p) \<notin> completed \<or> \<not> rendering_complete (\<sigma> p))"

definition offset_y :: "'f ReportBand \<Rightarrow> 's store \<Rightarrow> 's element \<Rightarrow> int" where
  "offset_y b \<sigma> elem =
     (case predecessor elem of
        Some p \<Rightarrow> render_bottom (\<sigma> p) + (el_y elem - bottom (\<sigma> p))
      | None \<Rightarrow>
          if allow_page_break b
          then (if first_render_element elem \<and> explicit_page_break b
                then el_y elem - page_y b else 0)
          else el_y elem)"

text \<open>One iteration of the loop, for the element at index \<open>ps_i\<close>.\<close>

definition pass_body :: "('s, 'f) elem_ops \<Rightarrow> Context \<Rightarrow> int \<Rightarrow> ('s, 'f) pass_state \<Rightarrow>
    ('s, 'f) pass_state" where
  "pass_body ops ctx container_height st =
     (let b = ps_band st; \<sigma> = ps_store st; i = ps_i st;
          r = sorted_elements b ! i; elem = \<sigma> r
      in
      if predecessor_pending \<sigma> (completed_elements st) elem
      then st\<lparr>new_page := True\<rparr>
      else if elem_class elem = PageBreakElement
      then (if allow_page_break b
            then st\<lparr>new_page := True, set_explicit_page_break := True,
                    ps_band := b\<lparr>sorted_elements := delete_at i (sorted_elements b),
                                 page_y := el_y elem\<rparr>\<rparr>
            else st\<lparr>returned := True, ps_band := b\<lparr>sorted_elements := []\<rparr>\<rparr>)
      else
        let off = offset_y b \<sigma> elem in
        if is_printed ops ctx elem
        then (if off \<ge> container_height
              then st\<lparr>ps_i := i + 1, new_page := True\<rparr>
              else
                let ((render_elem, is_complete), elem') =
                      get_next_render_element ops ctx off container_height elem;
                    \<sigma>' = \<sigma>(r := elem');
                    processed' = (if render_elem \<noteq> None \<and> is_complete
                                  then processed_elements st @ [r] else processed_elements st);
                    rendered' = (case render_elem of
                                   None \<Rightarrow> render_elements b
                                 | Some f \<Rightarrow> render_elements b @ [Fragment f])
                in if is_complete
                   then st\<lparr>processed_elements := processed',
                           completed_elements := insert (el_id elem') (completed_elements st),
                           ps_band := b\<lparr>sorted_elements := delete_at i (sorted_elements b),
                                        render_elements := rendered'\<rparr>,
                           ps_store := \<sigma>'\<rparr>
                   else st\<lparr>ps_i := i + 1, processed_elements := processed',
                           ps_band := b\<lparr>render_elements := rendered'\<rparr>, ps_store := \<sigma>'\<rparr>)
        else
          let elem' = finish_empty_element ops off elem
          in st\<lparr>processed_elements := processed_elements st @ [r],
                completed_elements := insert (el_id elem') (completed_elements st),
                ps_band := b\<lparr>sorted_elements := delete_at i (sorted_elements b)\<rparr>,
                ps_store := \<sigma>(r := elem')\<rparr>)"

definition pass_continues :: "('s, 'f) pass_state \<Rightarrow> bool" where
  "pass_continues st \<longleftrightarrow>
     \<not> returned st \<and> \<not> new_page st \<and> ps_i st < length (sorted_elements (ps_band st))"

function pass_loop :: "('s, 'f) elem_ops \<Rightarrow> Context \<Rightarrow> int \<Rightarrow> ('s, 'f) pass_state \<Rightarrow>
    ('s, 'f) pass_state" where
  "pass_loop ops ctx container_height st =
     (if pass_continues st
      then pass_loop ops ctx container_height (pass_body ops ctx container_height st)
      else st)"
  by pat_completeness auto
termination
proof (relation "measure (\<lambda>(ops, ctx, h, st).
          if returned st \<or> new_page st then 0
          else Suc (length (sorted_elements (ps_band st)) - ps_i st))")
  show "wf (measure (\<lambda>(ops :: ('s, 'f) elem_ops, ctx :: Context, h :: int, st :: ('s, 'f) pass_state).
          if returned st \<or> new_page st then 0
          else Suc (length (sorted_elements (ps_band st)) - ps_i st)))"
    by simp
next
  fix ops :: "('s, 'f) elem_ops" and ctx :: Context and container_height :: int
    and st :: "('s, 'f) pass_state"
  assume "pass_continues st"
  then show "((ops, ctx, container_height, pass_body ops ctx container_height st),
              (ops, ctx, container_height, st))
             \<in> measure (\<lambda>(ops, ctx, h, st).
                  if returned st \<or> new_page st then 0
                  else Suc (length (sorted_elements (ps_band st)) - ps_i st))"
    by (auto simp: pass_continues_def pass_body_def delete_at_def Let_def
             split: prod.splits option.splits)
qed

text \<open>The loop's equation is unfolded only where a proof asks for it.\<close>

declare pass_loop.simps [simp del]

text \<open>After the loop: \<^verbatim>\<open>for processed_element in processed_elements: for successor in
  processed_element.successors: successor.predecessor = None\<close>\<close>

definition clear_successors :: "ref list \<Rightarrow> 's store \<Rightarrow> 's store" where
  "clear_successors processed \<sigma> =
     foldl (\<lambda>\<sigma>1 pe. foldl (\<lambda>\<sigma>2 s. \<sigma>2(s := (\<sigma>2 s)\<lparr>predecessor := None\<rparr>)) \<sigma>1 (successors (\<sigma>1 pe)))
       \<sigma> processed"

definition pass_init :: "'f ReportBand \<Rightarrow> 's store \<Rightarrow> ('s, 'f) pass_state" where
  "pass_init b \<sigma> =
     \<lparr>ps_i = 0, new_page = False, processed_elements = [], completed_elements = {},
      set_explicit_page_break = False, returned = False, ps_band = b, ps_store = \<sigma>\<rparr>"

text \<open>What follows the loop, from the state the loop ends in.\<close>

definition pass_finish :: "('s, 'f) pass_state \<Rightarrow> bool \<times> 'f ReportBand \<times> 's store" where
  "pass_finish st =
     (if returned st then (True, ps_band st, ps_store st)
      else
        let b1 = (ps_band st)\<lparr>explicit_page_break :=
                     (if allow_page_break (ps_band st) then set_explicit_page_break st else True)\<rparr>
        in if length (sorted_elements b1) > 0
           then (False, b1\<lparr>render_elements := render_elements b1 @ [PageBreakSentinel]\<rparr>,
                 clear_successors (processed_elements st) (ps_store st))
           else (True, b1, ps_store st))"

definition ReportBand_create_render_elements :: "('s, 'f) elem_ops \<Rightarrow> Context \<Rightarrow> int \<Rightarrow>
    'f ReportBand \<Rightarrow> 's store \<Rightarrow> bool \<times> 'f ReportBand \<times> 's store" where
  "ReportBand_create_render_elements ops ctx container_height b \<sigma> =
     pass_finish (pass_loop ops ctx container_height (pass_init b \<sigma>))"

subsection \<open>\<^verbatim>\<open>ReportBand.render_pdf\<close>, \<^verbatim>\<open>is_finished\<close>, \<^verbatim>\<open>cleanup\<close>\<close>

text \<open>The page sink is external. The model records what the renderer asks of it, in order:
  a new page, the watermark image (position and size), a fragment drawn at an offset
  (\<^verbatim>\<open>render_elem.render_pdf\<close>), and a fragment released (\<^verbatim>\<open>render_elem.cleanup\<close>).\<close>

datatype 'f sink_op = AddPage | Image rat rat rat rat | Draw 'f int int | Release 'f

text \<open>The loop over \<^verbatim>\<open>render_elements\<close>: it draws up to the first end-of-page sentinel
  and returns what follows the sentinel (\<^verbatim>\<open>self.render_elements[counter:]\<close>).\<close>

fun render_pdf_items :: "int \<Rightarrow> int \<Rightarrow> bool \<Rightarrow> 'f render_item list \<Rightarrow>
    'f sink_op list \<times> 'f render_item list" where
  "render_pdf_items ox oy cleanup [] = ([], [])"
| "render_pdf_items ox oy cleanup (PageBreakSentinel # rest) = ([], rest)"
| "render_pdf_items ox oy cleanup (Fragment f # rest) =
     (let (drawn, remaining) = render_pdf_items ox oy cleanup rest
      in (Draw f ox oy # (if cleanup then Release f # drawn else drawn), remaining))"

definition ReportBand_render_pdf :: "int \<Rightarrow> int \<Rightarrow> bool \<Rightarrow> 'f ReportBand \<Rightarrow>
    'f sink_op list \<times> 'f ReportBand" where
  "ReportBand_render_pdf container_offset_x container_offset_y cleanup b =
     (let (drawn, remaining) =
            render_pdf_items container_offset_x container_offset_y cleanup (render_elements b)
      in (drawn, b\<lparr>render_elements := remaining\<rparr>))"

definition is_finished :: "'f ReportBand \<Rightarrow> bool" where
  "is_finished b \<longleftrightarrow> length (render_elements b) = 0"

definition ReportBand_cleanup :: "('s, 'f) elem_ops \<Rightarrow> 'f ReportBand \<Rightarrow> 's store \<Rightarrow> 's store" where
  "ReportBand_cleanup ops b \<sigma> = foldl (\<lambda>\<sigma>1 r. \<sigma>1(r := elem_cleanup ops (\<sigma>1 r))) \<sigma> (doc_elements b)"

subsection \<open>\<^verbatim>\<open>ReportBand.render_spreadsheet\<close>\<close>

text \<open>The worksheet is external as well; the model records each call of an element's
  \<^verbatim>\<open>render_spreadsheet\<close> as (element, row, column).\<close>

type_synonym cell_call = "ref \<times> int \<times> int"

text \<open>The \<^verbatim>\<open>for row_element in row_elements\<close> loop; the state is (row, col, calls).\<close>

fun render_row_elements :: "('s, 'f) elem_ops \<Rightarrow> Context \<Rightarrow> 's store \<Rightarrow> int \<Rightarrow> ref list \<Rightarrow>
    int \<times> int \<times> cell_call list \<Rightarrow> int \<times> int \<times> cell_call list" where
  "render_row_elements ops ctx \<sigma> current_row [] acc = acc"
| "render_row_elements ops ctx \<sigma> current_row (r # rs) (row, col, calls) =
     (let tmp_row = elem_render_spreadsheet ops ctx current_row col (\<sigma> r)
      in render_row_elements ops ctx \<sigma> current_row rs
           (max row tmp_row,
            col + (if elem_class (\<sigma> r) = TableElement then get_column_count ops (\<sigma> r) else 1),
            calls @ [(r, current_row, col)]))"

text \<open>The outer \<^verbatim>\<open>while i < count\<close> loop: the element at \<open>i\<close> and the elements after it
  that have the same \<open>y\<close> form one row; \<open>i\<close> moves past them.\<close>

function render_rows :: "('s, 'f) elem_ops \<Rightarrow> Context \<Rightarrow> 's store \<Rightarrow> ref list \<Rightarrow>
    int \<times> cell_call list \<Rightarrow> int \<times> cell_call list" where
  "render_rows ops ctx \<sigma> [] acc = acc"
| "render_rows ops ctx \<sigma> (r # rs) (row, calls) =
     (let row_elements = r # takeWhile (\<lambda>r2. el_y (\<sigma> r2) = el_y (\<sigma> r)) rs;
          (row', col', calls') = render_row_elements ops ctx \<sigma> row row_elements (row, 0, calls)
      in render_rows ops ctx \<sigma> (dropWhile (\<lambda>r2. el_y (\<sigma> r2) = el_y (\<sigma> r)) rs) (row', calls'))"
  by pat_completeness auto
termination
  by (relation "measure (\<lambda>(ops, ctx, \<sigma>, rs, acc). length rs)")
     (auto simp: length_dropWhile_le le_imp_less_Suc)

definition ReportBand_render_spreadsheet :: "('s, 'f) elem_ops \<Rightarrow> Context \<Rightarrow> int \<Rightarrow>
    'f ReportBand \<Rightarrow> 's store \<Rightarrow> int \<times> cell_call list" where
  "ReportBand_render_spreadsheet ops ctx row b \<sigma> =
     render_rows ops ctx \<sigma> (sorted_elements b) (row, [])"

section \<open>Document properties\<close>

text \<open>The report definition is a dictionary of JSON values.\<close>

datatype jval =
    JNull | JBool bool | JInt int | JFloat rat | JStr string
  | JArray "jval list" | JObject "(string \<times> jval) list"

type_synonym pydict = "string \<rightharpoonup> jval"

text \<open>\<^verbatim>\<open>data.get(key)\<close> and \<^verbatim>\<open>data.get(key, default)\<close>\<close>

definition dict_get :: "pydict \<Rightarrow> string \<Rightarrow> jval" where
  "dict_get data key = (case data key of None \<Rightarrow> JNull | Some v \<Rightarrow> v)"

definition dict_get_default :: "pydict \<Rightarrow> string \<Rightarrow> jval \<Rightarrow> jval" where
  "dict_get_default data key d = (case data key of None \<Rightarrow> d | Some v \<Rightarrow> v)"

text \<open>\<^verbatim>\<open>bool(v)\<close>\<close>

fun truthy :: "jval \<Rightarrow> bool" where
  "truthy JNull = False"
| "truthy (JBool b) = b"
| "truthy (JInt n) = (n \<noteq> 0)"
| "truthy (JFloat q) = (q \<noteq> 0)"
| "truthy (JStr s) = (s \<noteq> [])"
| "truthy (JArray xs) = (xs \<noteq> [])"
| "truthy (JObject kvs) = (kvs \<noteq> [])"

text \<open>The exceptions that leave the constructor and the renderer.\<close>

datatype py_error =
  KeyError | AttributeError | TypeError | OverflowError | RuntimeError string | OtherError string

text \<open>An entry of \<^verbatim>\<open>report.errors\<close>: \<^verbatim>\<open>Error(msg_key, object_id=..., field=...)\<close>.\<close>

record report_error =
  msg_key :: string
  object_id :: string
  field :: string

text \<open>The enumerations are declared in a module that is not among the sources. The
  datatypes have the members the code names; the last constructor of \<open>PageFormat\<close>,
  \<open>Orientation\<close> and \<open>Unit\<close> stands for every other member, which the code treats alike.
  The display policies are the three of the spec.\<close>

datatype PageFormat = PageFormat_a4 | PageFormat_a5 | PageFormat_letter | PageFormat_user_defined

datatype Orientation = Orientation_portrait | Orientation_landscape

datatype Unit = Unit_mm | Unit_inch | Unit_other

datatype BandDisplay = BandDisplay_never | BandDisplay_always | BandDisplay_not_on_first_page

text \<open>What the constructor takes from modules that are not among the sources: the member
  tables of the enumerations (name to member; a missing name is a \<^verbatim>\<open>KeyError\<close>) and
  \<^verbatim>\<open>get_int_value(data, key)\<close>, which may raise. They are parameters of the model.\<close>

record externals =
  PageFormat_members :: "string \<rightharpoonup> PageFormat"
  Orientation_members :: "string \<rightharpoonup> Orientation"
  Unit_members :: "string \<rightharpoonup> Unit"
  BandDisplay_members :: "string \<rightharpoonup> BandDisplay"
  get_int_value :: "pydict \<Rightarrow> string \<Rightarrow> py_error + int"

text \<open>\<^verbatim>\<open>EnumClass[key]\<close>: a name that is no member raises \<^verbatim>\<open>KeyError\<close>, and so does a key
  that is no string; a key that cannot be hashed raises \<^verbatim>\<open>TypeError\<close>.\<close>

definition enum_getitem :: "(string \<rightharpoonup> 'e) \<Rightarrow> jval \<Rightarrow> py_error + 'e" where
  "enum_getitem members key =
     (case key of
        JStr name \<Rightarrow> (case members name of None \<Rightarrow> Inl KeyError | Some m \<Rightarrow> Inr m)
      | JArray xs \<Rightarrow> Inl TypeError
      | JObject kvs \<Rightarrow> Inl TypeError
      | _ \<Rightarrow> Inl KeyError)"

text \<open>\<^verbatim>\<open>s.lower()\<close> on the letters A to Z; the member names are ASCII.\<close>

definition lower_char :: "char \<Rightarrow> char" where
  "lower_char c =
     (let n = (of_char c :: nat) in if 65 \<le> n \<and> n \<le> 90 then char_of (n + 32) else c)"

definition lower :: "string \<Rightarrow> string" where
  "lower s = map lower_char s"

text \<open>\<^verbatim>\<open>PageFormat[data.get('pageFormat').lower()]\<close>: only a string has \<^verbatim>\<open>lower\<close>.\<close>

definition page_format_of :: "externals \<Rightarrow> pydict \<Rightarrow> py_error + PageFormat" where
  "page_format_of ext data =
     (case dict_get data ''pageFormat'' of
        JStr s \<Rightarrow> enum_getitem (PageFormat_members ext) (JStr (lower s))
      | _ \<Rightarrow> Inl AttributeError)"

record DocumentProperties =
  dp_id :: string
  page_format :: PageFormat
  orientation :: Orientation
  page_width :: int
  page_height :: int
  content_height :: int
  margin_left :: int
  margin_top :: int
  margin_right :: int
  margin_bottom :: int
  pattern_locale :: jval
  pattern_currency_symbol :: jval
  header :: bool
  header_display :: BandDisplay
  header_size :: int
  footer :: bool
  footer_display :: BandDisplay
  footer_size :: int

definition document_properties_id :: string where
  "document_properties_id = ''0_document_properties''"

definition invalid_page_size :: report_error where
  "invalid_page_size =
     \<lparr>msg_key = ''errorMsgInvalidPageSize'', object_id = document_properties_id, field = ''page''\<rparr>"

text \<open>The size checks of a custom page format (lines 380 to 389): the height is looked at
  in the \<^verbatim>\<open>elif\<close> of the width's check.\<close>

definition page_size_errors :: "Unit \<Rightarrow> int \<Rightarrow> int \<Rightarrow> report_error list \<Rightarrow> report_error list" where
  "page_size_errors unit w h errors =
     (if unit = Unit_mm
      then (if w < 100 \<or> w \<ge> 100000 then errors @ [invalid_page_size]
            else if h < 100 \<or> h \<ge> 100000 then errors @ [invalid_page_size]
            else errors)
      else if unit = Unit_inch
      then (if w < 1 \<or> w \<ge> 1000 then errors @ [invalid_page_size]
            else if h < 1 \<or> h \<ge> 1000 then errors @ [invalid_page_size]
            else errors)
      else errors)"

subsection \<open>Python numbers\<close>

text \<open>The page size is an \<^verbatim>\<open>int\<close> (210, or what \<^verbatim>\<open>get_int_value\<close> returns) or a
  \<^verbatim>\<open>float\<close> (8.5), and the conversion to points (lines 390 to 396) divides in floating
  point. An \<^verbatim>\<open>int\<close> is unbounded. A \<^verbatim>\<open>float\<close> is an IEEE 754 double:
  \<open>PyFloat m e\<close> is the finite double \<open>m * 2^e\<close>, and \<open>PyInf\<close> an infinity of either sign
  (no operation here tells them apart, and none yields a NaN).\<close>

datatype pynum = PyInt int | PyFloat int int | PyInf

text \<open>The quotient \<open>p / q\<close> (\<open>q\<close> positive) rounded to the nearest integer, a tie going to
  the even one: \<^verbatim>\<open>round(x)\<close> of Python 3 on a float, and the rounding of a double's
  significand.\<close>

definition round_half_even :: "int \<Rightarrow> int \<Rightarrow> int" where
  "round_half_even p q =
     (let n = p div q; r = p mod q
      in if 2 * r < q then n else if 2 * r > q then n + 1 else if even n then n else n + 1)"

text \<open>The binary exponent of \<open>p / q\<close> (both positive): the \<open>k\<close> with
  \<open>2^k \<le> p / q < 2^(k+1)\<close>, found from the bit lengths of \<open>p\<close> and \<open>q\<close>.\<close>

definition ilog2 :: "int \<Rightarrow> int \<Rightarrow> int" where
  "ilog2 p q =
     (let k = bitlen p - bitlen q
      in if (if k \<ge> 0 then q * 2 ^ nat k \<le> p else q \<le> p * 2 ^ nat (- k)) then k else k - 1)"

text \<open>The double nearest to \<open>p / q\<close> (\<open>q\<close> positive; round to nearest, ties to even), as
  significand and exponent: a significand of 53 bits, exponents down to the subnormal
  range. A magnitude of at least \<open>2^1024 - 2^970\<close> is beyond the largest double and has no
  finite rounding.\<close>

definition nearest_double :: "int \<Rightarrow> int \<Rightarrow> (int \<times> int) option" where
  "nearest_double p q =
     (let a = (if p < 0 then - p else p)
      in if a \<ge> q * (2 ^ 1024 - 2 ^ 970) then None
         else if a = 0 then Some (0, 0)
         else let e = max (ilog2 a q - 52) (- 1074);
                  m = (if e \<ge> 0 then round_half_even a (q * 2 ^ nat e)
                       else round_half_even (a * 2 ^ nat (- e)) q)
              in Some (if p < 0 then - m else m, e))"

text \<open>The result of a float operation whose exact value is \<open>p / q\<close>: it overflows to an
  infinity without raising.\<close>

definition float_result :: "int \<Rightarrow> int \<Rightarrow> pynum" where
  "float_result p q = (case nearest_double p q of None \<Rightarrow> PyInf | Some (m, e) \<Rightarrow> PyFloat m e)"

text \<open>Numerator and denominator of \<open>m * 2^e\<close>.\<close>

definition ratio_of :: "int \<Rightarrow> int \<Rightarrow> int \<times> int" where
  "ratio_of m e = (if e \<ge> 0 then (m * 2 ^ nat e, 1) else (m, 2 ^ nat (- e)))"

text \<open>\<^verbatim>\<open>dpi * v\<close> with \<^verbatim>\<open>dpi = 72\<close>: exact on an \<^verbatim>\<open>int\<close>; on a float, 72 becomes the
  double 72.0 and the product is rounded.\<close>

definition mul_dpi :: "pynum \<Rightarrow> pynum" where
  "mul_dpi v =
     (case v of
        PyInt n \<Rightarrow> PyInt (72 * n)
      | PyFloat m e \<Rightarrow> (case ratio_of (72 * m) e of (p, q) \<Rightarrow> float_result p q)
      | PyInf \<Rightarrow> PyInf)"

text \<open>The float literal \<^verbatim>\<open>25.4\<close> is the double \<open>3574732204225331 * 2^-47\<close>. A float
  \<open>m * 2^e\<close> divided by it is \<open>m * 2^(e + 47) / 3574732204225331\<close>, rounded.\<close>

definition float_div_25_4 :: "int \<Rightarrow> int \<Rightarrow> pynum" where
  "float_div_25_4 m e =
     (case ratio_of m (e + 47) of (p, q) \<Rightarrow> float_result p (q * 3574732204225331))"

text \<open>\<^verbatim>\<open>v / 25.4\<close>: an \<^verbatim>\<open>int\<close> is converted to a float first, which raises
  \<^verbatim>\<open>OverflowError\<close> when it is too large for one; then the quotient is rounded.\<close>

definition div_25_4 :: "pynum \<Rightarrow> py_error + pynum" where
  "div_25_4 v =
     (case v of
        PyInt n \<Rightarrow>
          (case nearest_double n 1 of
             None \<Rightarrow> Inl OverflowError
           | Some (m, e) \<Rightarrow> Inr (float_div_25_4 m e))
      | PyFloat m e \<Rightarrow> Inr (float_div_25_4 m e)
      | PyInf \<Rightarrow> Inr PyInf)"

text \<open>\<^verbatim>\<open>round(v)\<close> (Python 3): an \<^verbatim>\<open>int\<close> is returned as it is, a float is rounded half
  to even, an infinity raises \<^verbatim>\<open>OverflowError\<close>.\<close>

definition py_round :: "pynum \<Rightarrow> py_error + int" where
  "py_round v =
     (case v of
        PyInt n \<Rightarrow> Inr n
      | PyFloat m e \<Rightarrow> (case ratio_of m e of (p, q) \<Rightarrow> Inr (round_half_even p q))
      | PyInf \<Rightarrow> Inl OverflowError)"

subsection \<open>The constructor\<close>

text \<open>Width, height (in the unit) and unit of the page, with the error list after the
  checks. The letter format is 8.5 (a float, \<open>17 * 2^-1\<close>) by 11 (an \<^verbatim>\<open>int\<close>).\<close>

definition page_size :: "externals \<Rightarrow> pydict \<Rightarrow> PageFormat \<Rightarrow> Orientation \<Rightarrow> report_error list \<Rightarrow>
    report_error list \<times> (py_error + pynum \<times> pynum \<times> Unit)" where
  "page_size ext data pf ori errors =
     (if pf = PageFormat_a4
      then (errors, Inr (if ori = Orientation_portrait then (PyInt 210, PyInt 297, Unit_mm)
                         else (PyInt 297, PyInt 210, Unit_mm)))
      else if pf = PageFormat_a5
      then (errors, Inr (if ori = Orientation_portrait then (PyInt 148, PyInt 210, Unit_mm)
                         else (PyInt 210, PyInt 148, Unit_mm)))
      else if pf = PageFormat_letter
      then (errors, Inr (if ori = Orientation_portrait then (PyFloat 17 (- 1), PyInt 11, Unit_inch)
                         else (PyInt 11, PyFloat 17 (- 1), Unit_inch)))
      else
        (case get_int_value ext data ''pageWidth'' of
           Inl e \<Rightarrow> (errors, Inl e)
         | Inr w \<Rightarrow>
           (case get_int_value ext data ''pageHeight'' of
              Inl e \<Rightarrow> (errors, Inl e)
            | Inr h \<Rightarrow>
              (case enum_getitem (Unit_members ext) (dict_get data ''unit'') of
                 Inl e \<Rightarrow> (errors, Inl e)
               | Inr unit \<Rightarrow>
                   (page_size_errors unit w h errors, Inr (PyInt w, PyInt h, unit))))))"

text \<open>The conversion of one side to points (lines 391 to 396):
  \<^verbatim>\<open>round((dpi * v) / 25.4)\<close> for millimetres, \<^verbatim>\<open>round(dpi * v)\<close> otherwise.\<close>

definition to_points :: "Unit \<Rightarrow> pynum \<Rightarrow> py_error + int" where
  "to_points unit v =
     (if unit = Unit_mm
      then (case div_25_4 (mul_dpi v) of Inl e \<Rightarrow> Inl e | Inr q \<Rightarrow> py_round q)
      else py_round (mul_dpi v))"

definition supported_locales :: "jval list" where
  "supported_locales = [JStr ''de'', JStr ''en'', JStr ''es'', JStr ''fr'', JStr ''it'']"

text \<open>A band's switch, display policy and size (lines 408 to 421).\<close>

definition band_settings :: "externals \<Rightarrow> pydict \<Rightarrow> string \<Rightarrow> string \<Rightarrow> string \<Rightarrow>
    py_error + bool \<times> BandDisplay \<times> int" where
  "band_settings ext data key display_key size_key =
     (if truthy (dict_get data key)
      then (case enum_getitem (BandDisplay_members ext) (dict_get data display_key) of
              Inl e \<Rightarrow> Inl e
            | Inr d \<Rightarrow>
              (case get_int_value ext data size_key of
                 Inl e \<Rightarrow> Inl e
               | Inr n \<Rightarrow> Inr (True, d, n)))
      else Inr (False, BandDisplay_never, 0))"

text \<open>The four margins and the content height (lines 398 to 402), in the order read.\<close>

definition margins_of :: "externals \<Rightarrow> pydict \<Rightarrow> py_error + int \<times> int \<times> int \<times> int \<times> int" where
  "margins_of ext data =
     (case get_int_value ext data ''contentHeight'' of Inl e \<Rightarrow> Inl e | Inr ch \<Rightarrow>
      case get_int_value ext data ''marginLeft'' of Inl e \<Rightarrow> Inl e | Inr ml \<Rightarrow>
      case get_int_value ext data ''marginTop'' of Inl e \<Rightarrow> Inl e | Inr mt \<Rightarrow>
      case get_int_value ext data ''marginRight'' of Inl e \<Rightarrow> Inl e | Inr mr \<Rightarrow>
      case get_int_value ext data ''marginBottom'' of Inl e \<Rightarrow> Inl e | Inr mb \<Rightarrow>
      Inr (ch, ml, mt, mr, mb))"

text \<open>The constructor from the locale check on (lines 403 to 424).\<close>

definition locale_and_bands :: "externals \<Rightarrow> pydict \<Rightarrow> PageFormat \<Rightarrow> Orientation \<Rightarrow> int \<Rightarrow> int \<Rightarrow>
    int \<times> int \<times> int \<times> int \<times> int \<Rightarrow> py_error + DocumentProperties" where
  "locale_and_bands ext data pf ori pw ph m =
     (case m of (ch, ml, mt, mr, mb) \<Rightarrow>
      let locale = dict_get_default data ''patternLocale'' (JStr [])
      in if locale \<notin> set supported_locales
         then Inl (RuntimeError ''invalid pattern_locale'')
         else
           (case band_settings ext data ''header'' ''headerDisplay'' ''headerSize'' of
              Inl e \<Rightarrow> Inl e
            | Inr (hd_on, hd_display, hd_size) \<Rightarrow>
              (case band_settings ext data ''footer'' ''footerDisplay'' ''footerSize'' of
                 Inl e \<Rightarrow> Inl e
               | Inr (ft_on, ft_display, ft_size) \<Rightarrow>
                   Inr \<lparr>dp_id = document_properties_id, page_format = pf, orientation = ori,
                        page_width = pw, page_height = ph,
                        content_height = (if ch = 0 then ph - hd_size - ft_size - mt - mb else ch),
                        margin_left = ml, margin_top = mt, margin_right = mr, margin_bottom = mb,
                        pattern_locale = locale,
                        pattern_currency_symbol =
                          dict_get_default data ''patternCurrencySymbol'' (JStr []),
                        header = hd_on, header_display = hd_display, header_size = hd_size,
                        footer = ft_on, footer_display = ft_display, footer_size = ft_size\<rparr>)))"

text \<open>\<^verbatim>\<open>DocumentProperties.__init__(report, data)\<close>. It appends to \<^verbatim>\<open>report.errors\<close> and
  may raise; the result is the error list it leaves and either the exception or the
  object.\<close>

definition DocumentProperties_init :: "externals \<Rightarrow> pydict \<Rightarrow> report_error list \<Rightarrow>
    report_error list \<times> (py_error + DocumentProperties)" where
  "DocumentProperties_init ext data errors =
     (case page_format_of ext data of
        Inl e \<Rightarrow> (errors, Inl e)
      | Inr pf \<Rightarrow>
        (case enum_getitem (Orientation_members ext) (dict_get data ''orientation'') of
           Inl e \<Rightarrow> (errors, Inl e)
         | Inr ori \<Rightarrow>
           (case page_size ext data pf ori errors of
              (errors1, Inl e) \<Rightarrow> (errors1, Inl e)
            | (errors1, Inr (w, h, unit)) \<Rightarrow>
              (case to_points unit w of
                 Inl e \<Rightarrow> (errors1, Inl e)
               | Inr pw \<Rightarrow>
                 (case to_points unit h of
                    Inl e \<Rightarrow> (errors1, Inl e)
                  | Inr ph \<Rightarrow>
                    (case margins_of ext data of
                       Inl e \<Rightarrow> (errors1, Inl e)
                     | Inr m \<Rightarrow> (errors1, locale_and_bands ext data pf ori pw ph m)))))))"

section \<open>Constructing the bands\<close>

text \<open>\<^verbatim>\<open>ReportBand.__init__(band, container_id, containers, report)\<close>, after
  \<^verbatim>\<open>Container.__init__\<close>: no elements yet, page breaks only in the content band, width
  and height from the document properties.\<close>

definition ReportBand_init :: "BandType \<Rightarrow> DocumentProperties \<Rightarrow> 'f ReportBand" where
  "ReportBand_init t dp =
     \<lparr>band = t, allow_page_break = (t = BandType_content), doc_elements = [],
      sorted_elements = [], render_elements = [], explicit_page_break = True, page_y = 0,
      band_width = page_width dp - margin_left dp - margin_right dp,
      band_height = (if t = BandType_content then content_height dp
                     else if t = BandType_header then header_size dp
                     else footer_size dp)\<rparr>"

text \<open>\<^verbatim>\<open>Container.add(doc_element)\<close>\<close>

definition Container_add :: "ref \<Rightarrow> 'f ReportBand \<Rightarrow> 'f ReportBand" where
  "Container_add r b = b\<lparr>doc_elements := doc_elements b @ [r]\<rparr>"

section \<open>The renderers\<close>

text \<open>The state the renderers work on: the three bands, the element store they share, the
  evaluation context, and what has been sent to the page sink.\<close>

record ('s, 'f) render_state =
  header_band :: "'f ReportBand"
  content_band :: "'f ReportBand"
  footer_band :: "'f ReportBand"
  elements :: "'s store"
  rs_context :: Context
  pdf_doc :: "'f sink_op list"

subsection \<open>\<^verbatim>\<open>DocumentPDFRenderer.render\<close>\<close>

text \<open>Whether a band is shown on the page with the given number.\<close>

definition band_shown :: "BandDisplay \<Rightarrow> nat \<Rightarrow> bool" where
  "band_shown display n \<longleftrightarrow>
     display = BandDisplay_always \<or> (display = BandDisplay_not_on_first_page \<and> n \<noteq> 1)"

text \<open>The height left for content on the page counted as \<open>pages\<close> (\<^verbatim>\<open>page_count\<close>) (lines 261 to 268).\<close>

definition available_height :: "DocumentProperties \<Rightarrow> nat \<Rightarrow> int" where
  "available_height dp pages =
     page_height dp - margin_top dp - margin_bottom dp
       - (if band_shown (header_display dp) pages then header_size dp else 0)
       - (if band_shown (footer_display dp) pages then footer_size dp else 0)"

text \<open>\<^verbatim>\<open>raise RuntimeError('Too many pages (probably an endless loop)')\<close>\<close>

definition too_many_pages :: py_error where
  "too_many_pages = RuntimeError ''Too many pages (probably an endless loop)''"

text \<open>The sizing loop (lines 259 to 274), entered with \<^verbatim>\<open>page_count\<close> = \<open>pages\<close>.\<close>

function sizing_loop :: "('s, 'f) elem_ops \<Rightarrow> Context \<Rightarrow> DocumentProperties \<Rightarrow> nat \<Rightarrow>
    'f ReportBand \<Rightarrow> 's store \<Rightarrow> py_error + nat \<times> 'f ReportBand \<times> 's store" where
  "sizing_loop ops ctx dp pages b \<sigma> =
     (case ReportBand_create_render_elements ops ctx (available_height dp pages) b \<sigma> of
        (is_complete, b', \<sigma>') \<Rightarrow>
          if is_complete then Inr (pages, b', \<sigma>')
          else if pages + 1 \<ge> 10000
          then Inl too_many_pages
          else sizing_loop ops ctx dp (pages + 1) b' \<sigma>')"
  by pat_completeness auto
termination
  by (relation "measure (\<lambda>(ops, ctx, dp, pages, b, \<sigma>). 10000 - pages)") auto

declare sizing_loop.simps [simp del]

text \<open>The watermark (lines 249 to 256 and 282 to 287): its size when it is to be drawn and
  the image file exists. Python computes these quotients in floating point.\<close>

definition watermark_size :: "bool \<Rightarrow> bool \<Rightarrow> DocumentProperties \<Rightarrow> (rat \<times> rat) option" where
  "watermark_size add_watermark file_exists dp =
     (if add_watermark \<and> file_exists
      then Some (of_int (page_width dp) / 3, (of_int (page_width dp) / 3) * (108 / 461))
      else None)"

definition watermark_ops :: "(rat \<times> rat) option \<Rightarrow> DocumentProperties \<Rightarrow> 'f sink_op list" where
  "watermark_ops wm dp =
     (case wm of
        None \<Rightarrow> []
      | Some (watermark_width, watermark_height) \<Rightarrow>
          if watermark_height < of_int (page_height dp)
          then [Image (of_int (page_width dp) / 2 - watermark_width / 2)
                      (of_int (page_height dp) - watermark_height)
                      watermark_width watermark_height]
          else [])"

text \<open>Header or footer on one page: prepare, lay out against the band's size, draw.\<close>

definition render_fixed_band :: "('s, 'f) elem_ops \<Rightarrow> Context \<Rightarrow> int \<Rightarrow> int \<Rightarrow> int \<Rightarrow>
    'f ReportBand \<Rightarrow> 's store \<Rightarrow> 'f sink_op list \<times> 'f ReportBand \<times> 's store" where
  "render_fixed_band ops ctx band_size ox oy b \<sigma> =
     (case ReportBand_prepare ops ctx True False b \<sigma> of
        (b1, \<sigma>1) \<Rightarrow>
          (case ReportBand_create_render_elements ops ctx band_size b1 \<sigma>1 of
             (is_complete, b2, \<sigma>2) \<Rightarrow>
               (case ReportBand_render_pdf ox oy False b2 of
                  (drawn, b3) \<Rightarrow> (drawn, b3, \<sigma>2))))"

text \<open>One iteration of the emission loop (lines 281 to 306).\<close>

definition emit_page :: "('s, 'f) elem_ops \<Rightarrow> DocumentProperties \<Rightarrow> (rat \<times> rat) option \<Rightarrow>
    ('s, 'f) render_state \<Rightarrow> ('s, 'f) render_state" where
  "emit_page ops dp wm st =
     (let ctx = inc_page_number (rs_context st);
          log1 = pdf_doc st @ [AddPage] @ watermark_ops wm dp;
          page_no = page_number ctx;
          footer_offset_y = page_height dp - footer_size dp - margin_bottom dp;
          show_header = band_shown (header_display dp) page_no;
          content_offset_y = margin_top dp + (if show_header then header_size dp else 0);
          (drawn_h, hb, \<sigma>1) =
             (if show_header
              then render_fixed_band ops ctx (header_size dp) (margin_left dp) (margin_top dp)
                     (header_band st) (elements st)
              else ([], header_band st, elements st));
          (drawn_f, fb, \<sigma>2) =
             (if band_shown (footer_display dp) page_no
              then render_fixed_band ops ctx (footer_size dp) (margin_left dp) footer_offset_y
                     (footer_band st) \<sigma>1
              else ([], footer_band st, \<sigma>1));
          (drawn_c, cb) = ReportBand_render_pdf (margin_left dp) content_offset_y True (content_band st)
      in st\<lparr>header_band := hb, content_band := cb, footer_band := fb, elements := \<sigma>2,
             rs_context := ctx, pdf_doc := log1 @ drawn_h @ drawn_f @ drawn_c\<rparr>)"

definition emit_continues :: "('s, 'f) render_state \<Rightarrow> bool" where
  "emit_continues st \<longleftrightarrow> \<not> is_finished (content_band st) \<or> page_number (rs_context st) = 0"

function emit_loop :: "('s, 'f) elem_ops \<Rightarrow> DocumentProperties \<Rightarrow> (rat \<times> rat) option \<Rightarrow>
    ('s, 'f) render_state \<Rightarrow> ('s, 'f) render_state" where
  "emit_loop ops dp wm st =
     (if emit_continues st then emit_loop ops dp wm (emit_page ops dp wm st) else st)"
  by pat_completeness auto
termination
proof (relation "measure (\<lambda>(ops, dp, wm, st).
          length (render_elements (content_band st)) +
          (if page_number (rs_context st) = 0 then 1 else 0))")
  show "wf (measure (\<lambda>(ops :: ('s, 'f) elem_ops, dp :: DocumentProperties,
                       wm :: (rat \<times> rat) option, st :: ('s, 'f) render_state).
          length (render_elements (content_band st)) +
          (if page_number (rs_context st) = 0 then 1 else 0)))"
    by simp
next
  fix ops :: "('s, 'f) elem_ops" and dp :: DocumentProperties and wm :: "(rat \<times> rat) option"
    and st :: "('s, 'f) render_state"
  assume c: "emit_continues st"
  let ?xs = "render_elements (content_band st)"
  let ?ys = "render_elements (content_band (emit_page ops dp wm st))"
  have shorter: "length (snd (render_pdf_items ox oy cl xs)) \<le> length xs - (if xs = [] then 0 else 1)"
    for ox oy cl and xs :: "'f render_item list"
  proof (induction xs)
    case Nil
    show ?case by simp
  next
    case (Cons x xs)
    show ?case
    proof (cases x)
      case (Fragment f)
      then show ?thesis using Cons by (simp add: case_prod_beta split: if_splits)
    next
      case PageBreakSentinel
      then show ?thesis by simp
    qed
  qed
  have ys: "?ys = snd (render_pdf_items (margin_left dp)
            (margin_top dp + (if band_shown (header_display dp) (page_number (rs_context st) + 1)
                              then header_size dp else 0))
            True ?xs)"
    by (simp add: emit_page_def Let_def case_prod_beta ReportBand_render_pdf_def
          inc_page_number_def)
  have pn: "page_number (rs_context (emit_page ops dp wm st)) = page_number (rs_context st) + 1"
    by (simp add: emit_page_def Let_def case_prod_beta inc_page_number_def)
  have le: "length ?ys \<le> length ?xs - (if ?xs = [] then 0 else 1)"
    unfolding ys by (rule shorter)
  have d: "?xs \<noteq> [] \<or> page_number (rs_context st) = 0"
    using c by (auto simp: emit_continues_def is_finished_def)
  have "length ?ys + 0 < length ?xs + (if page_number (rs_context st) = 0 then 1 else 0)"
  proof (cases "?xs = []")
    case True
    with d le show ?thesis by simp
  next
    case False
    then have p: "0 < length ?xs" by simp
    from le False have "length ?ys \<le> length ?xs - 1" by simp
    with p have "length ?ys < length ?xs" by arith
    then show ?thesis by simp
  qed
  then show "((ops, dp, wm, emit_page ops dp wm st), (ops, dp, wm, st))
             \<in> measure (\<lambda>(ops, dp, wm, st).
                  length (render_elements (content_band st)) +
                  (if page_number (rs_context st) = 0 then 1 else 0))"
    by (simp add: pn)
qed

declare emit_loop.simps [simp del]

text \<open>\<^verbatim>\<open>render()\<close>. \<open>add_watermark\<close> and \<open>file_exists\<close> stand for the renderer's flag and
  for \<^verbatim>\<open>os.path.exists(watermark_filename)\<close>. The result is the exception of the sizing
  loop, or the final state; its \<open>pdf_doc\<close> is what \<^verbatim>\<open>self.pdf_doc.output\<close> is called on.\<close>

definition DocumentPDFRenderer_render :: "('s, 'f) elem_ops \<Rightarrow> DocumentProperties \<Rightarrow> bool \<Rightarrow> bool \<Rightarrow>
    ('s, 'f) render_state \<Rightarrow> py_error + ('s, 'f) render_state" where
  "DocumentPDFRenderer_render ops dp add_watermark file_exists st =
     (case ReportBand_prepare ops (rs_context st) True False (content_band st) (elements st) of
        (cb, \<sigma>1) \<Rightarrow>
          (case sizing_loop ops (rs_context st) dp 1 cb \<sigma>1 of
             Inl e \<Rightarrow> Inl e
           | Inr (pages, cb2, \<sigma>2) \<Rightarrow>
               let st1 = st\<lparr>content_band := cb2, elements := \<sigma>2,
                            rs_context := set_page_count pages (rs_context st)\<rparr>;
                   st2 = emit_loop ops dp (watermark_size add_watermark file_exists dp) st1;
                   \<sigma>3 = ReportBand_cleanup ops (footer_band st2)
                          (ReportBand_cleanup ops (header_band st2) (elements st2))
               in Inr (st2\<lparr>elements := \<sigma>3\<rparr>)))"

subsection \<open>\<^verbatim>\<open>DocumentXLSXRenderer.render\<close>\<close>

text \<open>The row renderer's state: the render state, the row cursor \<^verbatim>\<open>self.row\<close> and the
  calls made on the worksheet.\<close>

record ('s, 'f) xlsx_state =
  xs_bands :: "('s, 'f) render_state"
  xs_row :: int
  worksheet :: "cell_call list"

text \<open>\<^verbatim>\<open>render_band(band)\<close>, for the band a selector and an update pick.\<close>

definition render_band :: "('s, 'f) elem_ops \<Rightarrow> 'f ReportBand \<Rightarrow> ('s, 'f) xlsx_state \<Rightarrow>
    'f ReportBand \<times> ('s, 'f) xlsx_state" where
  "render_band ops b xs =
     (case ReportBand_prepare ops (rs_context (xs_bands xs)) False False b (elements (xs_bands xs)) of
        (b1, \<sigma>1) \<Rightarrow>
          (case ReportBand_render_spreadsheet ops (rs_context (xs_bands xs)) (xs_row xs) b1 \<sigma>1 of
             (row1, calls) \<Rightarrow>
               (b1, xs\<lparr>xs_bands := (xs_bands xs)\<lparr>elements := \<sigma>1\<rparr>, xs_row := row1,
                       worksheet := worksheet xs @ calls\<rparr>)))"

definition render_header :: "('s, 'f) elem_ops \<Rightarrow> ('s, 'f) xlsx_state \<Rightarrow> ('s, 'f) xlsx_state" where
  "render_header ops xs =
     (case render_band ops (header_band (xs_bands xs)) xs of
        (b, xs1) \<Rightarrow> xs1\<lparr>xs_bands := (xs_bands xs1)\<lparr>header_band := b\<rparr>\<rparr>)"

definition render_content :: "('s, 'f) elem_ops \<Rightarrow> ('s, 'f) xlsx_state \<Rightarrow> ('s, 'f) xlsx_state" where
  "render_content ops xs =
     (case render_band ops (content_band (xs_bands xs)) xs of
        (b, xs1) \<Rightarrow> xs1\<lparr>xs_bands := (xs_bands xs1)\<lparr>content_band := b\<rparr>\<rparr>)"

definition render_footer :: "('s, 'f) elem_ops \<Rightarrow> ('s, 'f) xlsx_state \<Rightarrow> ('s, 'f) xlsx_state" where
  "render_footer ops xs =
     (case render_band ops (footer_band (xs_bands xs)) xs of
        (b, xs1) \<Rightarrow> xs1\<lparr>xs_bands := (xs_bands xs1)\<lparr>footer_band := b\<rparr>\<rparr>)"

text \<open>\<^verbatim>\<open>render()\<close> (lines 327 to 338); the renderer starts with \<^verbatim>\<open>self.row = 0\<close>. Both
  conditions read \<^verbatim>\<open>header_display\<close>.\<close>

definition DocumentXLSXRenderer_render :: "('s, 'f) elem_ops \<Rightarrow> DocumentProperties \<Rightarrow>
    ('s, 'f) render_state \<Rightarrow> ('s, 'f) xlsx_state" where
  "DocumentXLSXRenderer_render ops dp st =
     (let xs0 = \<lparr>xs_bands = st, xs_row = 0, worksheet = []\<rparr>;
          xs1 = (if header_display dp \<noteq> BandDisplay_never then render_header ops xs0 else xs0);
          xs2 = render_content ops xs1;
          xs3 = (if header_display dp \<noteq> BandDisplay_never then render_footer ops xs2 else xs2)
      in xs3)"

section \<open>Notions used to state the properties\<close>

text \<open>Two stores agree on the geometry the predecessor scan reads.\<close>

definition same_geometry :: "'s store \<Rightarrow> 's store \<Rightarrow> bool" where
  "same_geometry \<sigma> \<sigma>' \<longleftrightarrow>
     (\<forall>r. bottom (\<sigma>' r) = bottom (\<sigma> r) \<and> el_y (\<sigma>' r) = el_y (\<sigma> r) \<and>
          elem_class (\<sigma>' r) = elem_class (\<sigma> r) \<and> sort_order (\<sigma>' r) = sort_order (\<sigma> r))"

text \<open>What \<^verbatim>\<open>prepare\<close> leaves in the \<^verbatim>\<open>predecessor\<close> field of the element at index
  \<open>i\<close>: the scan's result when it is not a page break, the field's old value otherwise.\<close>

definition linked :: "'s store \<Rightarrow> ref list \<Rightarrow> nat \<Rightarrow> ref option" where
  "linked \<sigma> s i =
     (case find_predecessor \<sigma> s i of
        None \<Rightarrow> predecessor (\<sigma> (s ! i))
      | Some p \<Rightarrow> if elem_class (\<sigma> p) \<noteq> PageBreakElement then Some p
                  else predecessor (\<sigma> (s ! i)))"

text \<open>Index \<open>j\<close> is the tightest fit above index \<open>i\<close>: it comes earlier in the sorted
  list, its bottom edge does not exceed the top edge of \<open>i\<close>, no earlier element that fits
  has a greater bottom edge, and among those with the same bottom edge it is the nearest.\<close>

definition is_tightest_above :: "'s store \<Rightarrow> ref list \<Rightarrow> nat \<Rightarrow> nat \<Rightarrow> bool" where
  "is_tightest_above \<sigma> s i j \<longleftrightarrow>
     j < i \<and> bottom (\<sigma> (s ! j)) \<le> el_y (\<sigma> (s ! i)) \<and>
     (\<forall>k\<in>set [0..<i]. bottom (\<sigma> (s ! k)) \<le> el_y (\<sigma> (s ! i)) \<longrightarrow>
        bottom (\<sigma> (s ! k)) < bottom (\<sigma> (s ! j)) \<or>
        (bottom (\<sigma> (s ! k)) = bottom (\<sigma> (s ! j)) \<and> k \<le> j))"

text \<open>The reading of the scan in which a page-break marker is skipped as a candidate.\<close>

definition claimed_predecessor :: "'s store \<Rightarrow> ref list \<Rightarrow> nat \<Rightarrow> ref option" where
  "claimed_predecessor \<sigma> s i =
     foldl (scan_step \<sigma> (s ! i)) None
       (filter (\<lambda>r. elem_class (\<sigma> r) \<noteq> PageBreakElement) (rev (take i s)))"

text \<open>The states a pass goes through: \<open>pass_reaches ops ctx h st0 st\<close> holds when the
  loop, started in \<open>st0\<close>, arrives at \<open>st\<close> before an iteration.\<close>

inductive pass_reaches :: "('s, 'f) elem_ops \<Rightarrow> Context \<Rightarrow> int \<Rightarrow> ('s, 'f) pass_state \<Rightarrow>
    ('s, 'f) pass_state \<Rightarrow> bool" for ops ctx h st0 where
  start: "pass_reaches ops ctx h st0 st0"
| step: "pass_reaches ops ctx h st0 st \<Longrightarrow> pass_continues st \<Longrightarrow>
         pass_reaches ops ctx h st0 (pass_body ops ctx h st)"



text \<open>The result of the \<open>k\<close>-th call of the pagination step in the sizing phase, each
  call working on what the call before left (\<open>k = 0\<close>: nothing called yet).\<close>

fun sizing_call :: "('s, 'f) elem_ops \<Rightarrow> Context \<Rightarrow> DocumentProperties \<Rightarrow> nat \<Rightarrow>
    'f ReportBand \<Rightarrow> 's store \<Rightarrow> bool \<times> 'f ReportBand \<times> 's store" where
  "sizing_call ops ctx dp 0 b \<sigma> = (False, b, \<sigma>)"
| "sizing_call ops ctx dp (Suc k) b \<sigma> =
     (case sizing_call ops ctx dp k b \<sigma> of
        (done_before, b', \<sigma>') \<Rightarrow>
          ReportBand_create_render_elements ops ctx (available_height dp (Suc k)) b' \<sigma>')"


section \<open>Example inputs\<close>

text \<open>A new element as the element base class sets it up: not yet rendered, no links;
  a page break sorts before other elements with the same top. The examples keep in
  \<open>impl\<close> the height of the element that is still to be rendered.\<close>

definition mk_element :: "elem_class \<Rightarrow> int \<Rightarrow> int \<Rightarrow> int \<Rightarrow> int element" where
  "mk_element c n ytop h =
     \<lparr>elem_class = c, el_id = n, el_x = 0, el_y = ytop, bottom = ytop + h,
      sort_order = (if c = PageBreakElement then 0 else 1), spreadsheet_hide = False,
      first_render_element = True, rendering_complete = False, render_bottom = 0,
      predecessor = None, successors = [], impl = h\<rparr>"

text \<open>Element methods that leave the element as it is and never produce a fragment.\<close>

definition idle_ops :: "(int, int \<times> int) elem_ops" where
  "idle_ops =
     \<lparr>elem_prepare = (\<lambda>ctx pdf_doc only_verify e. e),
      is_printed = (\<lambda>ctx e. True),
      get_next_render_element = (\<lambda>ctx offset_y container_height e. ((None, False), e)),
      finish_empty_element = (\<lambda>offset_y e. e),
      elem_render_spreadsheet = (\<lambda>ctx row col e. row + 1),
      get_column_count = (\<lambda>e. 1),
      elem_cleanup = (\<lambda>e. e)\<rparr>"

text \<open>Modelled from the spec: an element that splits across pages as in the spec's
  end-to-end example. A fragment is (offset, height). When the rest of the element fits
  into the height left below the offset, the fragment takes the rest and the element is
  complete; otherwise the fragment fills the page and the element stays incomplete.\<close>

definition box_ops :: "(int, int \<times> int) elem_ops" where
  "box_ops =
     \<lparr>elem_prepare = (\<lambda>ctx pdf_doc only_verify e. e),
      is_printed = (\<lambda>ctx e. True),
      get_next_render_element = (\<lambda>ctx offset_y container_height e.
         if impl e \<le> container_height - offset_y
         then ((Some (offset_y, impl e), True),
               e\<lparr>first_render_element := False, rendering_complete := True,
                 render_bottom := offset_y + impl e, impl := 0\<rparr>)
         else ((Some (offset_y, container_height - offset_y), False),
               e\<lparr>first_render_element := False,
                 impl := impl e - (container_height - offset_y)\<rparr>)),
      finish_empty_element = (\<lambda>offset_y e.
         e\<lparr>rendering_complete := True, render_bottom := offset_y\<rparr>),
      elem_render_spreadsheet = (\<lambda>ctx row col e. row + 1),
      get_column_count = (\<lambda>e. 1),
      elem_cleanup = (\<lambda>e. e)\<rparr>"

text \<open>The enumerations' members by name, and a \<^verbatim>\<open>get_int_value\<close> that returns an
  integer entry and 0 for anything else.\<close>

definition std_externals :: externals where
  "std_externals =
     \<lparr>PageFormat_members = [''a4'' \<mapsto> PageFormat_a4, ''a5'' \<mapsto> PageFormat_a5,
                             ''letter'' \<mapsto> PageFormat_letter,
                             ''user_defined'' \<mapsto> PageFormat_user_defined],
      Orientation_members = [''portrait'' \<mapsto> Orientation_portrait,
                              ''landscape'' \<mapsto> Orientation_landscape],
      Unit_members = [''mm'' \<mapsto> Unit_mm, ''inch'' \<mapsto> Unit_inch],
      BandDisplay_members = [''never'' \<mapsto> BandDisplay_never, ''always'' \<mapsto> BandDisplay_always,
                              ''not_on_first_page'' \<mapsto> BandDisplay_not_on_first_page],
      get_int_value = (\<lambda>data key. case dict_get data key of JInt n \<Rightarrow> Inr n | _ \<Rightarrow> Inr 0)\<rparr>"

text \<open>An A4 portrait report without header and with a footer on every page.\<close>

definition data_a4 :: "string \<Rightarrow> pydict" where
  "data_a4 locale =
     [''pageFormat'' \<mapsto> JStr ''A4'', ''orientation'' \<mapsto> JStr ''portrait'',
      ''contentHeight'' \<mapsto> JInt 0,
      ''marginLeft'' \<mapsto> JInt 20, ''marginTop'' \<mapsto> JInt 20,
      ''marginRight'' \<mapsto> JInt 20, ''marginBottom'' \<mapsto> JInt 20,
      ''patternLocale'' \<mapsto> JStr locale, ''patternCurrencySymbol'' \<mapsto> JStr ''$'',
      ''header'' \<mapsto> JBool False, ''headerDisplay'' \<mapsto> JStr ''always'', ''headerSize'' \<mapsto> JInt 60,
      ''footer'' \<mapsto> JBool True, ''footerDisplay'' \<mapsto> JStr ''always'', ''footerSize'' \<mapsto> JInt 40]"

text \<open>The same report on a custom page of \<open>w\<close> by \<open>h\<close> millimetres.\<close>

definition data_custom :: "int \<Rightarrow> int \<Rightarrow> pydict" where
  "data_custom w h =
     (data_a4 ''en'')(''pageFormat'' \<mapsto> JStr ''user_defined'', ''unit'' \<mapsto> JStr ''mm'',
                     ''pageWidth'' \<mapsto> JInt w, ''pageHeight'' \<mapsto> JInt h)"

text \<open>The document properties built from \<open>data_a4\<close>.\<close>

definition props_a4 :: DocumentProperties where
  "props_a4 = projr (snd (DocumentProperties_init std_externals (data_a4 ''en'') []))"

text \<open>A band of the report of \<open>data_a4\<close> with the given elements added in order.\<close>

definition new_band :: "BandType \<Rightarrow> ref list \<Rightarrow> (int \<times> int) ReportBand" where
  "new_band t rs = foldl (\<lambda>b r. Container_add r b) (ReportBand_init t props_a4) rs"

definition ctx0 :: Context where
  "ctx0 = \<lparr>page_number = 0, page_count = 0\<rparr>"

text \<open>Element 0 spans 0..10, element 1 is a page break at 20, element 2 spans 30..40.\<close>

definition store_abc :: "int store" where
  "store_abc = (\<lambda>r. mk_element OtherElement 0 0 0)
      (0 := mk_element OtherElement 1 0 10,
       1 := mk_element PageBreakElement 2 20 0,
       2 := mk_element OtherElement 3 30 10)"

text \<open>Element 0 spans 0..h, element 1 follows it directly and is 60 high.\<close>

definition store_two :: "int \<Rightarrow> int store" where
  "store_two h = (\<lambda>r. mk_element OtherElement 0 0 0)
      (0 := mk_element OtherElement 1 0 h,
       1 := mk_element OtherElement 2 h 60)"



text \<open>A report before rendering: new bands with the given elements, a new context, an
  empty page sink.\<close>

definition report_state :: "ref list \<Rightarrow> ref list \<Rightarrow> ref list \<Rightarrow> int store \<Rightarrow>
    (int, int \<times> int) render_state" where
  "report_state hs cs fs \<sigma> =
     \<lparr>header_band = new_band BandType_header hs, content_band = new_band BandType_content cs,
      footer_band = new_band BandType_footer fs, elements = \<sigma>, rs_context = ctx0, pdf_doc = []\<rparr>"

text \<open>Elements 0 and 1 share a row; element 1 is hidden in spreadsheets.\<close>

definition store_hidden :: "int store" where
  "store_hidden = (\<lambda>r. mk_element OtherElement 0 0 0)
      (0 := mk_element OtherElement 1 0 10,
       1 := (mk_element OtherElement 2 0 10)\<lparr>spreadsheet_hide := True\<rparr>,
       2 := mk_element OtherElement 3 20 10)"

text \<open>A band that can break, holding only element 0 of \<open>store_abc\<close>, not yet rendered.
  With \<open>idle_ops\<close> the element never completes, so the band stays like this after
  every pass.\<close>

definition stuck :: "'f ReportBand \<Rightarrow> int store \<Rightarrow> bool" where
  "stuck b \<sigma> \<longleftrightarrow>
     sorted_elements b = [0] \<and> allow_page_break b \<and> page_y b = 0 \<and> \<sigma> 0 = store_abc 0"

section \<open>Preparation: the predecessor of an element\<close>

lemma prepare_elements_fst:
  "distinct rs \<Longrightarrow>
   fst (prepare_elements ops ctx pdf ov ab rs (sel, \<sigma>)) =
     sel @ filter (\<lambda>r. pdf \<or> \<not> spreadsheet_hide (\<sigma> r) \<or> ov) rs"
  by (induction rs arbitrary: sel \<sigma>) (auto intro!: filter_cong)

lemma prepare_elements_snd:
  "distinct rs \<Longrightarrow>
   snd (prepare_elements ops ctx pdf ov ab rs (sel, \<sigma>)) r =
     (if r \<in> set rs \<and> (pdf \<or> \<not> spreadsheet_hide (\<sigma> r) \<or> ov)
      then prepare_element ops ctx pdf ov ab (\<sigma> r) else \<sigma> r)"
  by (induction rs arbitrary: sel \<sigma>) auto

lemma set_predecessor_pred:
  "predecessor (set_predecessor r p \<sigma> r') = (if r' = r then Some p else predecessor (\<sigma> r'))"
  by (simp add: set_predecessor_def Let_def)

lemma set_predecessor_geom:
  "bottom (set_predecessor r p \<sigma> r') = bottom (\<sigma> r')"
  "el_y (set_predecessor r p \<sigma> r') = el_y (\<sigma> r')"
  "elem_class (set_predecessor r p \<sigma> r') = elem_class (\<sigma> r')"
  "sort_order (set_predecessor r p \<sigma> r') = sort_order (\<sigma> r')"
  by (simp_all add: set_predecessor_def Let_def)

lemma scan_step_cong:
  "same_geometry \<sigma> \<sigma>' \<Longrightarrow> scan_step \<sigma>' r = scan_step \<sigma> r"
  by (auto simp: scan_step_def same_geometry_def fun_eq_iff split: option.splits)

lemma find_predecessor_cong:
  "same_geometry \<sigma> \<sigma>' \<Longrightarrow> find_predecessor \<sigma>' s i = find_predecessor \<sigma> s i"
  by (simp add: find_predecessor_def scan_step_cong)

lemma link_predecessor_geom: "same_geometry \<sigma> (link_predecessor s \<sigma> i)"
  by (auto simp: link_predecessor_def same_geometry_def set_predecessor_geom split: option.splits)

lemma same_geometry_trans:
  "same_geometry a b \<Longrightarrow> same_geometry b c \<Longrightarrow> same_geometry a c"
  by (simp add: same_geometry_def)

lemma same_geometry_refl: "same_geometry a a"
  by (simp add: same_geometry_def)

lemma fold_link:
  assumes "distinct s" "n \<le> length s"
  shows "same_geometry \<sigma> (foldl (link_predecessor s) \<sigma> [0..<n]) \<and>
         (\<forall>i<length s. predecessor (foldl (link_predecessor s) \<sigma> [0..<n] (s ! i)) =
            (if i < n then linked \<sigma> s i else predecessor (\<sigma> (s ! i))))"
  using assms(2)
proof (induction n)
  case 0
  then show ?case by (simp add: same_geometry_refl)
next
  case (Suc n)
  let ?\<sigma>n = "foldl (link_predecessor s) \<sigma> [0..<n]"
  from Suc have IH: "same_geometry \<sigma> ?\<sigma>n"
    "\<And>i. i < length s \<Longrightarrow> predecessor (?\<sigma>n (s ! i)) =
            (if i < n then linked \<sigma> s i else predecessor (\<sigma> (s ! i)))"
    by auto
  have step: "foldl (link_predecessor s) \<sigma> [0..<Suc n] = link_predecessor s ?\<sigma>n n"
    by simp
  have g: "same_geometry \<sigma> (link_predecessor s ?\<sigma>n n)"
    using IH(1) link_predecessor_geom same_geometry_trans by blast
  have fp: "find_predecessor ?\<sigma>n s n = find_predecessor \<sigma> s n"
    using IH(1) by (rule find_predecessor_cong)
  have cls: "\<And>p. elem_class (?\<sigma>n p) = elem_class (\<sigma> p)"
    using IH(1) by (simp add: same_geometry_def)
  have "predecessor (link_predecessor s ?\<sigma>n n (s ! i)) =
            (if i < Suc n then linked \<sigma> s i else predecessor (\<sigma> (s ! i)))" if "i < length s" for i
  proof (cases "i = n")
    case True
    then show ?thesis
      using IH(2)[OF that]
      by (auto simp: link_predecessor_def linked_def fp cls set_predecessor_pred split: option.splits)
  next
    case False
    then have "s ! i \<noteq> s ! n" using assms(1) that Suc.prems
      by (simp add: nth_eq_iff_index_eq)
    then have "predecessor (link_predecessor s ?\<sigma>n n (s ! i)) = predecessor (?\<sigma>n (s ! i))"
      by (auto simp: link_predecessor_def set_predecessor_pred split: option.splits)
    then show ?thesis using IH(2)[OF that] False by auto
  qed
  then show ?case using g unfolding step by blast
qed

lemma scan_char:
  "(foldl (scan_step \<sigma> r) None xs = None \<longrightarrow>
       (\<forall>n<length xs. \<not> bottom (\<sigma> (xs ! n)) \<le> el_y (\<sigma> r))) \<and>
   (\<forall>p. foldl (scan_step \<sigma> r) None xs = Some p \<longrightarrow>
       (\<exists>m<length xs. p = xs ! m \<and> bottom (\<sigma> p) \<le> el_y (\<sigma> r) \<and>
          (\<forall>n<length xs. bottom (\<sigma> (xs ! n)) \<le> el_y (\<sigma> r) \<longrightarrow>
             bottom (\<sigma> (xs ! n)) < bottom (\<sigma> p) \<or>
             (bottom (\<sigma> (xs ! n)) = bottom (\<sigma> p) \<and> m \<le> n))))"
proof (induction xs rule: rev_induct)
  case Nil
  then show ?case by simp
next
  case (snoc x xs)
  let ?res = "foldl (scan_step \<sigma> r) None xs"
  show ?case
  proof (cases ?res)
    case None
    with snoc have no: "\<forall>n<length xs. \<not> bottom (\<sigma> (xs ! n)) \<le> el_y (\<sigma> r)" by simp
    show ?thesis
    proof (cases "bottom (\<sigma> x) \<le> el_y (\<sigma> r)")
      case True
      then have "foldl (scan_step \<sigma> r) None (xs @ [x]) = Some x"
        using None by (simp add: scan_step_def)
      moreover have "\<exists>m<length (xs @ [x]). x = (xs @ [x]) ! m \<and> bottom (\<sigma> x) \<le> el_y (\<sigma> r) \<and>
          (\<forall>n<length (xs @ [x]). bottom (\<sigma> ((xs @ [x]) ! n)) \<le> el_y (\<sigma> r) \<longrightarrow>
             bottom (\<sigma> ((xs @ [x]) ! n)) < bottom (\<sigma> x) \<or>
             (bottom (\<sigma> ((xs @ [x]) ! n)) = bottom (\<sigma> x) \<and> m \<le> n))"
        using True no by (intro exI[of _ "length xs"]) (auto simp: nth_append less_Suc_eq)
      ultimately show ?thesis by simp
    next
      case False
      then have "foldl (scan_step \<sigma> r) None (xs @ [x]) = None"
        using None by (simp add: scan_step_def)
      then show ?thesis using no False by (auto simp: nth_append less_Suc_eq)
    qed
  next
    case (Some p)
    with snoc obtain m where m: "m < length xs" "p = xs ! m" "bottom (\<sigma> p) \<le> el_y (\<sigma> r)"
      "\<forall>n<length xs. bottom (\<sigma> (xs ! n)) \<le> el_y (\<sigma> r) \<longrightarrow>
             bottom (\<sigma> (xs ! n)) < bottom (\<sigma> p) \<or>
             (bottom (\<sigma> (xs ! n)) = bottom (\<sigma> p) \<and> m \<le> n)"
      by auto
    show ?thesis
    proof (cases "bottom (\<sigma> x) \<le> el_y (\<sigma> r) \<and> bottom (\<sigma> x) > bottom (\<sigma> p)")
      case True
      then have "foldl (scan_step \<sigma> r) None (xs @ [x]) = Some x"
        using Some by (simp add: scan_step_def)
      moreover have "\<exists>m<length (xs @ [x]). x = (xs @ [x]) ! m \<and> bottom (\<sigma> x) \<le> el_y (\<sigma> r) \<and>
          (\<forall>n<length (xs @ [x]). bottom (\<sigma> ((xs @ [x]) ! n)) \<le> el_y (\<sigma> r) \<longrightarrow>
             bottom (\<sigma> ((xs @ [x]) ! n)) < bottom (\<sigma> x) \<or>
             (bottom (\<sigma> ((xs @ [x]) ! n)) = bottom (\<sigma> x) \<and> m \<le> n))"
        using True m(4) by (intro exI[of _ "length xs"]) (fastforce simp: nth_append less_Suc_eq)
      ultimately show ?thesis by simp
    next
      case False
      then have "foldl (scan_step \<sigma> r) None (xs @ [x]) = Some p"
        using Some by (auto simp: scan_step_def)
      moreover have "\<exists>m<length (xs @ [x]). p = (xs @ [x]) ! m \<and> bottom (\<sigma> p) \<le> el_y (\<sigma> r) \<and>
          (\<forall>n<length (xs @ [x]). bottom (\<sigma> ((xs @ [x]) ! n)) \<le> el_y (\<sigma> r) \<longrightarrow>
             bottom (\<sigma> ((xs @ [x]) ! n)) < bottom (\<sigma> p) \<or>
             (bottom (\<sigma> ((xs @ [x]) ! n)) = bottom (\<sigma> p) \<and> m \<le> n))"
        using False m by (intro exI[of _ m]) (auto simp: nth_append less_Suc_eq)
      ultimately show ?thesis by simp
    qed
  qed
qed

lemma find_predecessor_None:
  assumes "i < length s" "find_predecessor \<sigma> s i = None" "k < i"
  shows "\<not> bottom (\<sigma> (s ! k)) \<le> el_y (\<sigma> (s ! i))"
proof -
  let ?xs = "rev (take i s)"
  have len: "length ?xs = i" using assms(1) by simp
  have "\<forall>n<length ?xs. \<not> bottom (\<sigma> (?xs ! n)) \<le> el_y (\<sigma> (s ! i))"
    using scan_char[of \<sigma> "s ! i" ?xs] assms(2) unfolding find_predecessor_def by blast
  then have "\<not> bottom (\<sigma> (?xs ! (i - Suc k))) \<le> el_y (\<sigma> (s ! i))"
    using len assms(3) by simp
  moreover have "?xs ! (i - Suc k) = s ! k"
    using assms(1,3) by (simp add: rev_nth)
  ultimately show ?thesis by simp
qed

lemma find_predecessor_Some:
  assumes "i < length s" "find_predecessor \<sigma> s i = Some p"
  shows "\<exists>j. p = s ! j \<and> is_tightest_above \<sigma> s i j"
proof -
  let ?xs = "rev (take i s)"
  have len: "length ?xs = i" using assms(1) by simp
  have nth: "\<And>n. n < i \<Longrightarrow> ?xs ! n = s ! (i - Suc n)"
    using assms(1) by (simp add: rev_nth)
  obtain m where m: "m < i" "p = ?xs ! m" "bottom (\<sigma> p) \<le> el_y (\<sigma> (s ! i))"
      "\<forall>n<i. bottom (\<sigma> (?xs ! n)) \<le> el_y (\<sigma> (s ! i)) \<longrightarrow>
             bottom (\<sigma> (?xs ! n)) < bottom (\<sigma> p) \<or>
             (bottom (\<sigma> (?xs ! n)) = bottom (\<sigma> p) \<and> m \<le> n)"
    using scan_char[of \<sigma> "s ! i" ?xs] assms(2) len unfolding find_predecessor_def by auto
  let ?j = "i - Suc m"
  have pj: "p = s ! ?j" using m(1,2) nth by simp
  have "is_tightest_above \<sigma> s i ?j"
    unfolding is_tightest_above_def
  proof (intro conjI ballI impI)
    show "?j < i" using m(1) by simp
    show "bottom (\<sigma> (s ! ?j)) \<le> el_y (\<sigma> (s ! i))" using m(3) pj by simp
  next
    fix k assume k: "k \<in> set [0..<i]" and q: "bottom (\<sigma> (s ! k)) \<le> el_y (\<sigma> (s ! i))"
    then have ki: "k < i" by simp
    have e: "?xs ! (i - Suc k) = s ! k" using nth[of "i - Suc k"] ki by simp
    have "i - Suc k < i" using ki by simp
    with m(4) e q have "bottom (\<sigma> (s ! k)) < bottom (\<sigma> p) \<or>
             (bottom (\<sigma> (s ! k)) = bottom (\<sigma> p) \<and> m \<le> i - Suc k)"
      by metis
    then show "bottom (\<sigma> (s ! k)) < bottom (\<sigma> (s ! ?j)) \<or>
        (bottom (\<sigma> (s ! k)) = bottom (\<sigma> (s ! ?j)) \<and> k \<le> ?j)"
      using pj ki m(1) by auto
  qed
  then show ?thesis using pj by blast
qed

lemma is_tightest_above_cong:
  "same_geometry \<sigma> \<sigma>' \<Longrightarrow> is_tightest_above \<sigma>' s i j = is_tightest_above \<sigma> s i j"
  by (simp add: is_tightest_above_def same_geometry_def)

lemma prepare_pdf_unfold:
  assumes "distinct (doc_elements b)"
    and "ReportBand_prepare ops ctx True ov b \<sigma> = (b', \<sigma>')"
  defines "\<sigma>1 \<equiv> (\<lambda>r. if r \<in> set (doc_elements b)
                    then prepare_element ops ctx True ov (allow_page_break b) (\<sigma> r) else \<sigma> r)"
  defines "s \<equiv> sort_key (\<lambda>r. (el_y (\<sigma>1 r), sort_order (\<sigma>1 r))) (doc_elements b)"
  shows "sorted_elements b' = s" "\<sigma>' = foldl (link_predecessor s) \<sigma>1 [0..<length s]"
proof -
  obtain sel \<sigma>0 where p: "prepare_elements ops ctx True ov (allow_page_break b)
                        (doc_elements b) ([], \<sigma>) = (sel, \<sigma>0)"
    by (cases "prepare_elements ops ctx True ov (allow_page_break b) (doc_elements b) ([], \<sigma>)")
  have "sel = doc_elements b"
    using prepare_elements_fst[OF assms(1), of ops ctx True ov "allow_page_break b" "[]" \<sigma>] p
    by simp
  moreover have "\<sigma>0 = \<sigma>1"
    using prepare_elements_snd[OF assms(1), of ops ctx True ov "allow_page_break b" "[]" \<sigma>] p
    by (auto simp: \<sigma>1_def fun_eq_iff)
  ultimately show "sorted_elements b' = s" "\<sigma>' = foldl (link_predecessor s) \<sigma>1 [0..<length s]"
    using assms(2) p by (auto simp: ReportBand_prepare_def Let_def s_def)
qed

text \<open>
  C1 (as amended). A band is prepared for page rendering. Its elements are sorted by
  (top, draw order). For the element at index \<open>i\<close> the scan runs over all earlier
  elements, page-break markers included, and picks the tightest fit above \<open>i\<close>. When that
  element is not a page break it becomes the predecessor. When it is a page break, or no
  earlier element fits, \<^verbatim>\<open>prepare\<close> sets no predecessor: the field keeps the value the
  element's own \<^verbatim>\<open>prepare\<close> left.
\<close>

theorem prepare_predecessor_tightest:
  assumes "distinct (doc_elements b)"
    and "ReportBand_prepare ops ctx True only_verify b \<sigma> = (b', \<sigma>')"
    and "i < length (sorted_elements b')"
  shows "sorted (map (\<lambda>r. (el_y (\<sigma>' r), sort_order (\<sigma>' r))) (sorted_elements b')) \<and>
    ((\<exists>j. is_tightest_above \<sigma>' (sorted_elements b') i j \<and>
          elem_class (\<sigma>' (sorted_elements b' ! j)) \<noteq> PageBreakElement \<and>
          predecessor (\<sigma>' (sorted_elements b' ! i)) = Some (sorted_elements b' ! j)) \<or>
     (\<exists>j. is_tightest_above \<sigma>' (sorted_elements b') i j \<and>
          elem_class (\<sigma>' (sorted_elements b' ! j)) = PageBreakElement \<and>
          predecessor (\<sigma>' (sorted_elements b' ! i)) =
            predecessor (prepare_element ops ctx True only_verify (allow_page_break b)
                           (\<sigma> (sorted_elements b' ! i)))) \<or>
     ((\<forall>k\<in>set [0..<i]. \<not> bottom (\<sigma>' (sorted_elements b' ! k)) \<le> el_y (\<sigma>' (sorted_elements b' ! i))) \<and>
      predecessor (\<sigma>' (sorted_elements b' ! i)) =
        predecessor (prepare_element ops ctx True only_verify (allow_page_break b)
                       (\<sigma> (sorted_elements b' ! i)))))"
proof -
  define \<sigma>1 where "\<sigma>1 = (\<lambda>r. if r \<in> set (doc_elements b)
                    then prepare_element ops ctx True only_verify (allow_page_break b) (\<sigma> r) else \<sigma> r)"
  define s where "s = sort_key (\<lambda>r. (el_y (\<sigma>1 r), sort_order (\<sigma>1 r))) (doc_elements b)"
  have s: "sorted_elements b' = s" and \<sigma>': "\<sigma>' = foldl (link_predecessor s) \<sigma>1 [0..<length s]"
    using prepare_pdf_unfold[OF assms(1,2)] by (simp_all add: s_def \<sigma>1_def)
  have ds: "distinct s" using assms(1) by (simp add: s_def)
  have i: "i < length s" using assms(3) s by simp
  have mem: "s ! i \<in> set (doc_elements b)"
    using i nth_mem[OF i] by (simp add: s_def)
  from fold_link[OF ds order_refl, of \<sigma>1] i
  have geo: "same_geometry \<sigma>1 \<sigma>'" and pr: "predecessor (\<sigma>' (s ! i)) = linked \<sigma>1 s i"
    by (simp_all add: \<sigma>')
  have old: "predecessor (\<sigma>1 (s ! i)) =
      predecessor (prepare_element ops ctx True only_verify (allow_page_break b) (\<sigma> (s ! i)))"
    using mem by (simp add: \<sigma>1_def)
  have cls: "\<And>r. elem_class (\<sigma>' r) = elem_class (\<sigma>1 r)"
    and bt: "\<And>r. bottom (\<sigma>' r) = bottom (\<sigma>1 r)" and yy: "\<And>r. el_y (\<sigma>' r) = el_y (\<sigma>1 r)"
    and so: "\<And>r. sort_order (\<sigma>' r) = sort_order (\<sigma>1 r)"
    using geo by (simp_all add: same_geometry_def)
  have srt: "sorted (map (\<lambda>r. (el_y (\<sigma>' r), sort_order (\<sigma>' r))) s)"
    by (simp add: yy so s_def)
  have main: "(\<exists>j. is_tightest_above \<sigma>' s i j \<and> elem_class (\<sigma>' (s ! j)) \<noteq> PageBreakElement \<and>
          predecessor (\<sigma>' (s ! i)) = Some (s ! j)) \<or>
     (\<exists>j. is_tightest_above \<sigma>' s i j \<and> elem_class (\<sigma>' (s ! j)) = PageBreakElement \<and>
          predecessor (\<sigma>' (s ! i)) = predecessor (\<sigma>1 (s ! i))) \<or>
     ((\<forall>k\<in>set [0..<i]. \<not> bottom (\<sigma>' (s ! k)) \<le> el_y (\<sigma>' (s ! i))) \<and>
      predecessor (\<sigma>' (s ! i)) = predecessor (\<sigma>1 (s ! i)))"
  proof (cases "find_predecessor \<sigma>1 s i")
    case None
    then have "\<forall>k\<in>set [0..<i]. \<not> bottom (\<sigma>' (s ! k)) \<le> el_y (\<sigma>' (s ! i))"
      using find_predecessor_None[OF i None] by (simp add: bt yy)
    moreover have "predecessor (\<sigma>' (s ! i)) = predecessor (\<sigma>1 (s ! i))"
      using pr None by (simp add: linked_def)
    ultimately show ?thesis by blast
  next
    case (Some p)
    then obtain j where j: "p = s ! j" "is_tightest_above \<sigma>1 s i j"
      using find_predecessor_Some[OF i Some] by blast
    then have t: "is_tightest_above \<sigma>' s i j"
      using is_tightest_above_cong[OF geo] by simp
    show ?thesis
    proof (cases "elem_class (\<sigma>1 p) = PageBreakElement")
      case True
      then have "predecessor (\<sigma>' (s ! i)) = predecessor (\<sigma>1 (s ! i))"
        using pr Some by (simp add: linked_def)
      then show ?thesis using t True j(1) cls by auto
    next
      case False
      then have "predecessor (\<sigma>' (s ! i)) = Some (s ! j)"
        using pr Some j(1) by (simp add: linked_def)
      then show ?thesis using t False j(1) cls by auto
    qed
  qed
  show ?thesis using srt main unfolding s old by simp
qed

theorem prepare_predecessor_tightest_witness:
  "distinct (doc_elements (new_band BandType_content [2, 0, 1])) \<and>
   1 < length (sorted_elements (fst (ReportBand_prepare idle_ops ctx0 True False
                                      (new_band BandType_content [2, 0, 1]) store_abc))) \<and>
   is_tightest_above
     (snd (ReportBand_prepare idle_ops ctx0 True False (new_band BandType_content [2, 0, 1]) store_abc))
     (sorted_elements (fst (ReportBand_prepare idle_ops ctx0 True False
                              (new_band BandType_content [2, 0, 1]) store_abc))) 1 0 \<and>
   predecessor (snd (ReportBand_prepare idle_ops ctx0 True False
                       (new_band BandType_content [2, 0, 1]) store_abc) 1) = Some 0"
proof -
  let ?b = "new_band BandType_content [2, 0, 1]"
  let ?R = "ReportBand_prepare idle_ops ctx0 True False ?b store_abc"
  have h1: "distinct (doc_elements ?b)" by (simp add: new_band_def Container_add_def ReportBand_init_def)
  have h2: "?R = (fst ?R, snd ?R)" by simp
  have h3: "1 < length (sorted_elements (fst ?R))" by code_simp
  note prepare_predecessor_tightest[OF h1 h2 h3]
  moreover have "is_tightest_above (snd ?R) (sorted_elements (fst ?R)) 1 0" by code_simp
  moreover have "predecessor (snd ?R 1) = Some 0" by code_simp
  ultimately show ?thesis using h1 h3 by blast
qed

text \<open>C1 as stated fails: in the band of \<open>store_abc\<close> the page break (bottom 20) is the
  scan's choice for element 2 (top 30), so element 2 gets no predecessor, although
  element 0 (bottom 10) is the tightest fit once page breaks are skipped.\<close>

theorem prepare_page_break_candidate_counterexample:
  "sorted_elements (fst (ReportBand_prepare idle_ops ctx0 True False
                           (new_band BandType_content [2, 0, 1]) store_abc)) = [0, 1, 2] \<and>
   claimed_predecessor
     (snd (ReportBand_prepare idle_ops ctx0 True False (new_band BandType_content [2, 0, 1]) store_abc))
     (sorted_elements (fst (ReportBand_prepare idle_ops ctx0 True False
                              (new_band BandType_content [2, 0, 1]) store_abc))) 2 = Some 0 \<and>
   predecessor (snd (ReportBand_prepare idle_ops ctx0 True False
                       (new_band BandType_content [2, 0, 1]) store_abc) 2) = None"
  by code_simp

section \<open>Pagination: one pass of \<^verbatim>\<open>create_render_elements\<close>\<close>

lemma pass_reaches_loop:
  "pass_reaches ops ctx h st0 st \<Longrightarrow> pass_loop ops ctx h st0 = pass_loop ops ctx h st"
proof (induction rule: pass_reaches.induct)
  case start
  show ?case by simp
next
  case (step st)
  have "pass_loop ops ctx h st = pass_loop ops ctx h (pass_body ops ctx h st)"
    using step.hyps(2) by (subst pass_loop.simps) simp
  with step.IH show ?case by simp
qed

lemma pass_loop_stop: "\<not> pass_continues st \<Longrightarrow> pass_loop ops ctx h st = st"
  by (subst pass_loop.simps) simp

lemma pass_body_pending:
  "predecessor_pending (ps_store st) (completed_elements st)
     (ps_store st (sorted_elements (ps_band st) ! ps_i st)) \<Longrightarrow>
   pass_body ops ctx h st = st\<lparr>new_page := True\<rparr>"
  by (simp add: pass_body_def Let_def)

lemma pass_body_page_break:
  "\<not> predecessor_pending (ps_store st) (completed_elements st)
     (ps_store st (sorted_elements (ps_band st) ! ps_i st)) \<Longrightarrow>
   elem_class (ps_store st (sorted_elements (ps_band st) ! ps_i st)) = PageBreakElement \<Longrightarrow>
   pass_body ops ctx h st =
     (if allow_page_break (ps_band st)
      then st\<lparr>new_page := True, set_explicit_page_break := True,
              ps_band := (ps_band st)\<lparr>sorted_elements := delete_at (ps_i st) (sorted_elements (ps_band st)),
                           page_y := el_y (ps_store st (sorted_elements (ps_band st) ! ps_i st))\<rparr>\<rparr>
      else st\<lparr>returned := True, ps_band := (ps_band st)\<lparr>sorted_elements := []\<rparr>\<rparr>)"
  by (simp add: pass_body_def Let_def)

lemma pass_body_hidden:
  "\<not> predecessor_pending (ps_store st) (completed_elements st) elem \<Longrightarrow>
   elem = ps_store st r \<Longrightarrow> r = sorted_elements (ps_band st) ! ps_i st \<Longrightarrow>
   elem_class elem \<noteq> PageBreakElement \<Longrightarrow>
   \<not> is_printed ops ctx elem \<Longrightarrow>
   pass_body ops ctx h st =
     st\<lparr>processed_elements := processed_elements st @ [r],
        completed_elements :=
          insert (el_id (finish_empty_element ops (offset_y (ps_band st) (ps_store st) elem) elem))
            (completed_elements st),
        ps_band := (ps_band st)\<lparr>sorted_elements := delete_at (ps_i st) (sorted_elements (ps_band st))\<rparr>,
        ps_store := (ps_store st)(r := finish_empty_element ops (offset_y (ps_band st) (ps_store st) elem) elem)\<rparr>"
  by (simp add: pass_body_def Let_def)

lemma pass_body_overflow:
  "\<not> predecessor_pending (ps_store st) (completed_elements st) elem \<Longrightarrow>
   elem = ps_store st r \<Longrightarrow> r = sorted_elements (ps_band st) ! ps_i st \<Longrightarrow>
   elem_class elem \<noteq> PageBreakElement \<Longrightarrow>
   is_printed ops ctx elem \<Longrightarrow>
   offset_y (ps_band st) (ps_store st) elem \<ge> h \<Longrightarrow>
   pass_body ops ctx h st = st\<lparr>ps_i := ps_i st + 1, new_page := True\<rparr>"
  by (simp add: pass_body_def Let_def)

lemma pass_body_render:
  assumes "\<not> predecessor_pending (ps_store st) (completed_elements st)
              (ps_store st (sorted_elements (ps_band st) ! ps_i st))"
   and "elem_class (ps_store st (sorted_elements (ps_band st) ! ps_i st)) \<noteq> PageBreakElement"
   and "is_printed ops ctx (ps_store st (sorted_elements (ps_band st) ! ps_i st))"
   and "offset_y (ps_band st) (ps_store st) (ps_store st (sorted_elements (ps_band st) ! ps_i st)) < h"
  shows "pass_body ops ctx h st =
     (let r = sorted_elements (ps_band st) ! ps_i st;
          res = get_next_render_element ops ctx
                  (offset_y (ps_band st) (ps_store st) (ps_store st r)) h (ps_store st r);
          render_elem = fst (fst res); is_complete = snd (fst res); elem' = snd res;
          rendered' = render_elements (ps_band st) @
                              (case render_elem of None \<Rightarrow> [] | Some f \<Rightarrow> [Fragment f])
      in if is_complete
      then st\<lparr>processed_elements :=
                (if render_elem \<noteq> None then processed_elements st @ [r] else processed_elements st),
              completed_elements := insert (el_id elem') (completed_elements st),
              ps_band := (ps_band st)\<lparr>sorted_elements := delete_at (ps_i st) (sorted_elements (ps_band st)),
                           render_elements := rendered'\<rparr>,
              ps_store := (ps_store st)(r := elem')\<rparr>
      else st\<lparr>ps_i := ps_i st + 1, processed_elements := processed_elements st,
              ps_band := (ps_band st)\<lparr>render_elements := rendered'\<rparr>,
              ps_store := (ps_store st)(r := elem')\<rparr>)"
  using assms
  apply (simp add: pass_body_def Let_def case_prod_beta)
  apply (cases "fst (fst (get_next_render_element ops ctx
                  (offset_y (ps_band st) (ps_store st) (ps_store st (sorted_elements (ps_band st) ! ps_i st))) h (ps_store st (sorted_elements (ps_band st) ! ps_i st))))")
   apply simp_all
  done


lemma pass_body_render_rendered:
  assumes "\<not> predecessor_pending (ps_store st) (completed_elements st)
              (ps_store st (sorted_elements (ps_band st) ! ps_i st))"
   and "elem_class (ps_store st (sorted_elements (ps_band st) ! ps_i st)) \<noteq> PageBreakElement"
   and "is_printed ops ctx (ps_store st (sorted_elements (ps_band st) ! ps_i st))"
   and "offset_y (ps_band st) (ps_store st) (ps_store st (sorted_elements (ps_band st) ! ps_i st)) < h"
  shows "render_elements (ps_band (pass_body ops ctx h st)) =
     render_elements (ps_band st) @
       (case fst (fst (get_next_render_element ops ctx
               (offset_y (ps_band st) (ps_store st) (ps_store st (sorted_elements (ps_band st) ! ps_i st)))
               h (ps_store st (sorted_elements (ps_band st) ! ps_i st)))) of
          None \<Rightarrow> [] | Some f \<Rightarrow> [Fragment f])"
  unfolding pass_body_render[OF assms] by (simp add: Let_def)


lemma pass_body_fragment:
  assumes "render_elements (ps_band (pass_body ops ctx h st)) \<noteq> render_elements (ps_band st)"
  shows "\<not> predecessor_pending (ps_store st) (completed_elements st)
              (ps_store st (sorted_elements (ps_band st) ! ps_i st)) \<and>
         (\<exists>f. render_elements (ps_band (pass_body ops ctx h st)) =
                 render_elements (ps_band st) @ [Fragment f])"
proof -
  let ?e = "ps_store st (sorted_elements (ps_band st) ! ps_i st)"
  consider (a) "predecessor_pending (ps_store st) (completed_elements st) ?e"
    | (b) "\<not> predecessor_pending (ps_store st) (completed_elements st) ?e"
          "elem_class ?e = PageBreakElement"
    | (c) "\<not> predecessor_pending (ps_store st) (completed_elements st) ?e"
          "elem_class ?e \<noteq> PageBreakElement" "\<not> is_printed ops ctx ?e"
    | (d) "\<not> predecessor_pending (ps_store st) (completed_elements st) ?e"
          "elem_class ?e \<noteq> PageBreakElement" "is_printed ops ctx ?e"
          "offset_y (ps_band st) (ps_store st) ?e \<ge> h"
    | (e) "\<not> predecessor_pending (ps_store st) (completed_elements st) ?e"
          "elem_class ?e \<noteq> PageBreakElement" "is_printed ops ctx ?e"
          "offset_y (ps_band st) (ps_store st) ?e < h"
    by fastforce
  then show ?thesis
  proof cases
    case a then show ?thesis using assms by (simp add: pass_body_pending)
  next
    case b then show ?thesis using assms
      by (cases "allow_page_break (ps_band st)") (simp_all add: pass_body_page_break)
  next
    case c then show ?thesis using assms by (simp add: pass_body_hidden[OF c(1) refl refl c(2,3)])
  next
    case d then show ?thesis using assms by (simp add: pass_body_overflow[OF d(1) refl refl d(2,3,4)])
  next
    case e
    then show ?thesis using assms pass_body_render_rendered[OF e, of ] 
      by (auto split: option.splits)
  qed
qed







lemma pass_loop_after_stop:
  assumes "pass_reaches ops ctx h st0 st" "pass_continues st"
    "\<not> pass_continues (pass_body ops ctx h st)"
  shows "pass_loop ops ctx h st0 = pass_body ops ctx h st"
proof -
  have "pass_loop ops ctx h st0 = pass_loop ops ctx h st"
    by (rule pass_reaches_loop[OF assms(1)])
  also have "\<dots> = pass_loop ops ctx h (pass_body ops ctx h st)"
    using assms(2) by (subst pass_loop.simps) simp
  also have "\<dots> = pass_body ops ctx h st" using assms(3) by (rule pass_loop_stop)
  finally show ?thesis .
qed

text \<open>A pass adds fragments only; the end-of-page sentinel is added when the pass is
  over. So what one pass of a prepared band leaves is drawn in one call of
  \<^verbatim>\<open>render_pdf\<close>.\<close>

lemma pass_body_no_sentinel:
  assumes "PageBreakSentinel \<notin> set (render_elements (ps_band st))"
  shows "PageBreakSentinel \<notin> set (render_elements (ps_band (pass_body ops ctx h st)))"
proof (cases "render_elements (ps_band (pass_body ops ctx h st)) = render_elements (ps_band st)")
  case True
  then show ?thesis using assms by simp
next
  case False
  from pass_body_fragment[OF False] obtain f where
    "render_elements (ps_band (pass_body ops ctx h st)) = render_elements (ps_band st) @ [Fragment f]"
    by blast
  then show ?thesis using assms by simp
qed


lemma pass_loop_no_sentinel:
  "PageBreakSentinel \<notin> set (render_elements (ps_band st)) \<Longrightarrow>
   PageBreakSentinel \<notin> set (render_elements (ps_band (pass_loop ops ctx h st)))"
proof (induction ops ctx h st rule: pass_loop.induct)
  case (1 ops ctx h st)
  show ?case
  proof (cases "pass_continues st")
    case True
    then have "pass_loop ops ctx h st = pass_loop ops ctx h (pass_body ops ctx h st)"
      by (subst pass_loop.simps) simp
    then show ?thesis
      using "1.IH"[OF True pass_body_no_sentinel[OF "1.prems"]] by simp
  next
    case False
    then show ?thesis using "1.prems" by (simp add: pass_loop_stop)
  qed
qed

lemma render_pdf_items_drains:
  "PageBreakSentinel \<notin> set fs \<Longrightarrow>
   snd (render_pdf_items ox oy cl fs) = [] \<and>
   snd (render_pdf_items ox oy cl (fs @ [PageBreakSentinel])) = []"
proof (induction fs)
  case Nil
  show ?case by simp
next
  case (Cons x fs)
  then show ?case by (cases x) (simp_all add: case_prod_beta)
qed

lemma create_render_elements_one_page:
  assumes "PageBreakSentinel \<notin> set (render_elements b)"
  shows "snd (render_pdf_items ox oy cl
            (render_elements (fst (snd (ReportBand_create_render_elements ops ctx h b \<sigma>))))) = []"
proof -
  let ?st = "pass_loop ops ctx h (pass_init b \<sigma>)"
  have "PageBreakSentinel \<notin> set (render_elements (ps_band (pass_init b \<sigma>)))"
    using assms by (simp add: pass_init_def)
  then have n: "PageBreakSentinel \<notin> set (render_elements (ps_band ?st))"
    by (rule pass_loop_no_sentinel)
  have "render_elements (fst (snd (pass_finish ?st))) = render_elements (ps_band ?st) \<or>
        render_elements (fst (snd (pass_finish ?st))) =
          render_elements (ps_band ?st) @ [PageBreakSentinel]"
    by (simp add: pass_finish_def Let_def)
  then show ?thesis
    using render_pdf_items_drains[OF n, of ox oy cl]
    by (auto simp: ReportBand_create_render_elements_def)
qed

lemma prepare_pdf_render_elements:
  "render_elements (fst (ReportBand_prepare ops ctx True ov b \<sigma>)) = []"
  by (simp add: ReportBand_prepare_def case_prod_beta Let_def)

lemma render_fixed_band_drains:
  "render_elements (fst (snd (render_fixed_band ops ctx n ox oy b \<sigma>))) = []"
proof -
  obtain b1 \<sigma>1 where p: "ReportBand_prepare ops ctx True False b \<sigma> = (b1, \<sigma>1)"
    by (cases "ReportBand_prepare ops ctx True False b \<sigma>")
  have e: "render_elements b1 = []"
    using prepare_pdf_render_elements[of ops ctx False b \<sigma>] p by simp
  then have "PageBreakSentinel \<notin> set (render_elements b1)" by simp
  from create_render_elements_one_page[OF this, of ox oy False ops ctx n \<sigma>1]
  show ?thesis
    by (simp add: render_fixed_band_def p case_prod_beta ReportBand_render_pdf_def)
qed










section \<open>Preparation for row output\<close>

lemma render_row_elements_calls:
  "map fst (snd (snd (render_row_elements ops ctx \<sigma> current_row rs (row, col, calls)))) =
     map fst calls @ rs"
  by (induction rs arbitrary: row col calls) (simp_all add: Let_def)

lemma render_rows_calls:
  "map fst (snd (render_rows ops ctx \<sigma> rs (row, calls))) = map fst calls @ rs"
proof (induction ops ctx \<sigma> rs "(row, calls)" arbitrary: row calls rule: render_rows.induct)
  case (1 ops ctx \<sigma>)
  show ?case by simp
next
  case (2 ops ctx \<sigma> r rs row calls)
  let ?same = "takeWhile (\<lambda>r2. el_y (\<sigma> r2) = el_y (\<sigma> r)) rs"
  let ?rest = "dropWhile (\<lambda>r2. el_y (\<sigma> r2) = el_y (\<sigma> r)) rs"
  obtain row' col' calls' where
    rr: "render_row_elements ops ctx \<sigma> row (r # ?same) (row, 0, calls) = (row', col', calls')"
    by (cases "render_row_elements ops ctx \<sigma> row (r # ?same) (row, 0, calls)") auto
  have c: "map fst calls' = map fst calls @ (r # ?same)"
    using render_row_elements_calls[of ops ctx \<sigma> row "r # ?same" row 0 calls] rr by simp
  have "map fst (snd (render_rows ops ctx \<sigma> ?rest (row', calls'))) = map fst calls' @ ?rest"
    using "2.hyps"[OF refl rr[symmetric] refl] by simp
  then show ?case using rr c by (simp add: Let_def)
qed

text \<open>
  C9. A band is prepared for row output (no pdf document, not verify-only). The elements
  in its sorted list are exactly the elements of the band whose spreadsheet-hide flag is
  not set, and the calls that write cells go to the elements of the sorted list, in its
  order: a hidden element writes no cell. Prepared in verify-only mode, the sorted list
  holds every element of the band.
\<close>

theorem spreadsheet_hide_excluded:
  assumes "distinct (doc_elements b)"
  shows "set (sorted_elements (fst (ReportBand_prepare ops ctx False False b \<sigma>))) =
           set (filter (\<lambda>r. \<not> spreadsheet_hide (\<sigma> r)) (doc_elements b))
       \<and> map fst (snd (ReportBand_render_spreadsheet ops ctx row
                        (fst (ReportBand_prepare ops ctx False False b \<sigma>))
                        (snd (ReportBand_prepare ops ctx False False b \<sigma>)))) =
           sorted_elements (fst (ReportBand_prepare ops ctx False False b \<sigma>))
       \<and> set (sorted_elements (fst (ReportBand_prepare ops ctx False True b \<sigma>))) =
           set (doc_elements b)"
proof -
  have 1: "set (sorted_elements (fst (ReportBand_prepare ops ctx False False b \<sigma>))) =
           set (filter (\<lambda>r. \<not> spreadsheet_hide (\<sigma> r)) (doc_elements b))"
    using prepare_elements_fst[OF assms, of ops ctx False False "allow_page_break b" "[]" \<sigma>]
    by (simp add: ReportBand_prepare_def case_prod_beta)
  have 2: "map fst (snd (ReportBand_render_spreadsheet ops ctx row b' \<sigma>')) = sorted_elements b'"
    for b' \<sigma>'
    using render_rows_calls[of ops ctx \<sigma>' "sorted_elements b'" row "[]"]
    by (simp add: ReportBand_render_spreadsheet_def)
  have 3: "set (sorted_elements (fst (ReportBand_prepare ops ctx False True b \<sigma>))) =
           set (doc_elements b)"
    using prepare_elements_fst[OF assms, of ops ctx False True "allow_page_break b" "[]" \<sigma>]
    by (simp add: ReportBand_prepare_def case_prod_beta)
  show ?thesis using 1 2 3 by blast
qed

theorem spreadsheet_hide_excluded_witness:
  "distinct (doc_elements (new_band BandType_content [2, 1, 0])) \<and>
   spreadsheet_hide (store_hidden 1) \<and>
   sorted_elements (fst (ReportBand_prepare box_ops ctx0 False False (new_band BandType_content [2, 1, 0]) store_hidden)) = [0, 2] \<and>
   map fst (snd (ReportBand_render_spreadsheet box_ops ctx0 0
                   (fst (ReportBand_prepare box_ops ctx0 False False (new_band BandType_content [2, 1, 0]) store_hidden))
                   (snd (ReportBand_prepare box_ops ctx0 False False (new_band BandType_content [2, 1, 0]) store_hidden)))) = [0, 2] \<and>
   set (sorted_elements (fst (ReportBand_prepare box_ops ctx0 False True (new_band BandType_content [2, 1, 0]) store_hidden))) = {0, 1, 2}"
proof -
  let ?b = "new_band BandType_content [2, 1, 0]"
  have h: "distinct (doc_elements ?b)" by (simp add: new_band_def Container_add_def ReportBand_init_def)
  have d: "doc_elements ?b = [2, 1, 0]" by (simp add: new_band_def Container_add_def ReportBand_init_def)
  have s: "sorted_elements (fst (ReportBand_prepare box_ops ctx0 False False (new_band BandType_content [2, 1, 0]) store_hidden)) = [0, 2]"
    by code_simp
  have f: "spreadsheet_hide (store_hidden 1)" by code_simp
  from spreadsheet_hide_excluded[OF h, of box_ops ctx0 store_hidden 0]
  have "map fst (snd (ReportBand_render_spreadsheet box_ops ctx0 0
                   (fst (ReportBand_prepare box_ops ctx0 False False (new_band BandType_content [2, 1, 0]) store_hidden))
                   (snd (ReportBand_prepare box_ops ctx0 False False (new_band BandType_content [2, 1, 0]) store_hidden)))) =
          sorted_elements (fst (ReportBand_prepare box_ops ctx0 False False (new_band BandType_content [2, 1, 0]) store_hidden))"
    and "set (sorted_elements (fst (ReportBand_prepare box_ops ctx0 False True (new_band BandType_content [2, 1, 0]) store_hidden))) =
          set (doc_elements ?b)"
    by blast+
  then show ?thesis using h s f d by auto
qed

section \<open>Document properties: what the constructor collects and raises\<close>

text \<open>The float literal is the double nearest to 25.4 (\<open>7149464408450662 * 2^-48\<close> is
  \<open>3574732204225331 * 2^-47\<close>), and the sides of the standard pages in points are what
  Python computes.\<close>

lemma float_25_4_nearest: "nearest_double 127 5 = Some (7149464408450662, - 48)"
  by code_simp


lemma to_points_a5: "to_points Unit_mm (PyInt 148) = Inr 420"
  by code_simp

lemma to_points_letter: "to_points Unit_inch (PyFloat 17 (- 1)) = Inr 612" "to_points Unit_inch (PyInt 11) = Inr 792"
  by code_simp+

text \<open>A side too large for a float cannot be converted from millimetres: the conversion
  raises \<^verbatim>\<open>OverflowError\<close>.\<close>

lemma to_points_mm_overflow:
  assumes "(2::int) ^ 1024 \<le> 72 * \<bar>n\<bar>"
  shows "to_points Unit_mm (PyInt n) = Inl OverflowError"
proof -
  have a: "(if 72 * n < 0 then - (72 * n) else 72 * n) = 72 * \<bar>n\<bar>" by simp
  have g: "1 * (x - y) \<le> z" if "0 \<le> y" "x \<le> z" for x y z :: int
    using that by simp
  have "(0::int) \<le> 2 ^ 970" by simp
  then have "1 * ((2::int) ^ 1024 - 2 ^ 970) \<le> 72 * \<bar>n\<bar>" using assms by (rule g)
  then have "nearest_double (72 * n) 1 = None"
    unfolding nearest_double_def a Let_def by (rule if_P)
  then show ?thesis by (simp add: to_points_def mul_dpi_def div_25_4_def)
qed




text \<open>The conversion comes before the locale check: a custom page in millimetres whose
  width is too large for a float ends the constructor with \<^verbatim>\<open>OverflowError\<close>, after the
  page-size check has collected its record, whatever the locale.\<close>

lemma custom_page_overflow:
  assumes "page_format_of ext data = Inr PageFormat_user_defined"
    and "enum_getitem (Orientation_members ext) (dict_get data ''orientation'') = Inr ori"
    and "get_int_value ext data ''pageWidth'' = Inr w"
    and "get_int_value ext data ''pageHeight'' = Inr h"
    and "enum_getitem (Unit_members ext) (dict_get data ''unit'') = Inr Unit_mm"
    and "(2::int) ^ 1024 \<le> 72 * w"
  shows "DocumentProperties_init ext data errors = (errors @ [invalid_page_size], Inl OverflowError)"
proof -
  have big: "(100000::int) \<le> w"
  proof (rule ccontr)
    assume "\<not> 100000 \<le> w"
    then have "72 * w < 72 * 100000" by simp
    also have "\<dots> \<le> (2::int) ^ 1024" by simp
    finally show False using assms(6) by simp
  qed
  have e: "page_size_errors Unit_mm w h errors = errors @ [invalid_page_size]"
    using big by (simp add: page_size_errors_def)
  have ps: "page_size ext data PageFormat_user_defined ori errors =
          (errors @ [invalid_page_size], Inr (PyInt w, PyInt h, Unit_mm))"
    using assms(3-5) e by (simp add: page_size_def)
  have "\<bar>w\<bar> = w" using big by simp
  then have "to_points Unit_mm (PyInt w) = Inl OverflowError"
    using to_points_mm_overflow[of w] assms(6) by simp
  then show ?thesis
    using assms(1,2) ps by (simp add: DocumentProperties_init_def)
qed

text \<open>
  C10. For a custom page format (not A4, A5 or letter) in millimetres or inches whose
  width and height are both outside the bounds of the unit, the constructor appends
  exactly one invalid-page-size record to the error list, whatever happens after the
  checks.
\<close>

theorem one_page_size_error:
  assumes "page_format_of ext data = Inr pf"
    and "pf \<noteq> PageFormat_a4" "pf \<noteq> PageFormat_a5" "pf \<noteq> PageFormat_letter"
    and "enum_getitem (Orientation_members ext) (dict_get data ''orientation'') = Inr ori"
    and "get_int_value ext data ''pageWidth'' = Inr w"
    and "get_int_value ext data ''pageHeight'' = Inr h"
    and "enum_getitem (Unit_members ext) (dict_get data ''unit'') = Inr unit"
    and "(unit = Unit_mm \<and> (w < 100 \<or> w \<ge> 100000) \<and> (h < 100 \<or> h \<ge> 100000)) \<or>
         (unit = Unit_inch \<and> (w < 1 \<or> w \<ge> 1000) \<and> (h < 1 \<or> h \<ge> 1000))"
  shows "fst (DocumentProperties_init ext data errors) = errors @ [invalid_page_size]"
proof -
  have e: "page_size_errors unit w h errors = errors @ [invalid_page_size]"
    using assms(9) by (auto simp: page_size_errors_def)
  have "page_size ext data pf ori errors =
          (errors @ [invalid_page_size], Inr (PyInt w, PyInt h, unit))"
    using assms(2-4,6-8) e by (simp add: page_size_def)
  then show ?thesis
    using assms(1,5) by (simp add: DocumentProperties_init_def split: sum.splits)
qed

theorem one_page_size_error_witness:
  "page_format_of std_externals (data_custom 5 7) = Inr PageFormat_user_defined \<and>
   get_int_value std_externals (data_custom 5 7) ''pageWidth'' = Inr 5 \<and>
   get_int_value std_externals (data_custom 5 7) ''pageHeight'' = Inr 7 \<and>
   fst (DocumentProperties_init std_externals (data_custom 5 7) []) = [invalid_page_size]"
proof -
  have a: "page_format_of std_externals (data_custom 5 7) = Inr PageFormat_user_defined"
    by code_simp
  have b: "enum_getitem (Orientation_members std_externals)
             (dict_get (data_custom 5 7) ''orientation'') = Inr Orientation_portrait"
    by code_simp
  have w: "get_int_value std_externals (data_custom 5 7) ''pageWidth'' = Inr 5" by code_simp
  have h: "get_int_value std_externals (data_custom 5 7) ''pageHeight'' = Inr 7" by code_simp
  have u: "enum_getitem (Unit_members std_externals) (dict_get (data_custom 5 7) ''unit'') =
             Inr Unit_mm"
    by code_simp
  have o: "(Unit_mm = Unit_mm \<and> ((5::int) < 100 \<or> (5::int) \<ge> 100000) \<and>
              ((7::int) < 100 \<or> (7::int) \<ge> 100000)) \<or>
           (Unit_mm = Unit_inch \<and> ((5::int) < 1 \<or> (5::int) \<ge> 1000) \<and>
              ((7::int) < 1 \<or> (7::int) \<ge> 1000))"
    by simp
  have "fst (DocumentProperties_init std_externals (data_custom 5 7) []) = [] @ [invalid_page_size]"
    by (rule one_page_size_error[OF a _ _ _ b w h u o]) simp_all
  with a w h show ?thesis by simp
qed

section \<open>Fixed-page rendering\<close>

lemma sizing_from:
  assumes "1 \<le> p" "p < 10000"
    and "snd (sizing_call ops ctx dp (p - 1) b0 \<sigma>0) = (b, \<sigma>)"
    and "\<forall>k\<in>{1..<p}. \<not> fst (sizing_call ops ctx dp k b0 \<sigma>0)"
  shows "(\<exists>n b' \<sigma>'. sizing_loop ops ctx dp p b \<sigma> = Inr (n, b', \<sigma>') \<and> p \<le> n \<and> n < 10000 \<and>
            sizing_call ops ctx dp n b0 \<sigma>0 = (True, b', \<sigma>') \<and>
            (\<forall>k\<in>{1..<n}. \<not> fst (sizing_call ops ctx dp k b0 \<sigma>0)))
       \<or> (sizing_loop ops ctx dp p b \<sigma> = Inl too_many_pages \<and>
            (\<forall>k\<in>{1..<10000}. \<not> fst (sizing_call ops ctx dp k b0 \<sigma>0)))"
  using assms
proof (induction "10000 - p" arbitrary: p b \<sigma>)
  case 0
  then show ?case by simp
next
  case (Suc d)
  obtain c b' \<sigma>' where cr:
    "ReportBand_create_render_elements ops ctx (available_height dp p) b \<sigma> = (c, b', \<sigma>')"
    by (cases "ReportBand_create_render_elements ops ctx (available_height dp p) b \<sigma>") auto
  have pS: "p = Suc (p - 1)" using Suc.prems(1) by simp
  have call: "sizing_call ops ctx dp p b0 \<sigma>0 = (c, b', \<sigma>')"
  proof -
    have "sizing_call ops ctx dp (Suc (p - 1)) b0 \<sigma>0 =
            ReportBand_create_render_elements ops ctx (available_height dp (Suc (p - 1))) b \<sigma>"
      using Suc.prems(3) by (simp add: case_prod_beta)
    then show ?thesis using pS cr by simp
  qed
  show ?case
  proof (cases c)
    case True
    have "sizing_loop ops ctx dp p b \<sigma> = Inr (p, b', \<sigma>')"
      using cr True by (subst sizing_loop.simps) simp
    then show ?thesis using call True Suc.prems
      by (intro disjI1 exI[of _ p] exI[of _ b'] exI[of _ \<sigma>']) simp
  next
    case False
    have notp: "\<forall>k\<in>{1..<Suc p}. \<not> fst (sizing_call ops ctx dp k b0 \<sigma>0)"
    proof
      fix k assume "k \<in> {1..<Suc p}"
      then have "k \<in> {1..<p} \<or> k = p" by auto
      then show "\<not> fst (sizing_call ops ctx dp k b0 \<sigma>0)"
        using Suc.prems(4) call False by auto
    qed
    show ?thesis
    proof (cases "p + 1 \<ge> 10000")
      case True
      then have p9: "Suc p = 10000" using Suc.prems(2) by simp
      have "sizing_loop ops ctx dp p b \<sigma> = Inl too_many_pages"
        using cr False True by (subst sizing_loop.simps) simp
      then show ?thesis using notp p9 by simp
    next
      case F: False
      have rec: "sizing_loop ops ctx dp p b \<sigma> = sizing_loop ops ctx dp (p + 1) b' \<sigma>'"
        using cr False F by (subst sizing_loop.simps) simp
      have d: "d = 10000 - (p + 1)" using Suc.hyps(2) by simp
      have s: "snd (sizing_call ops ctx dp (p + 1 - 1) b0 \<sigma>0) = (b', \<sigma>')"
        using call by simp
      have n: "\<forall>k\<in>{1..<p + 1}. \<not> fst (sizing_call ops ctx dp k b0 \<sigma>0)"
        using notp by simp
      have "1 \<le> p + 1" "p + 1 < 10000" using F by simp_all
      from Suc.hyps(1)[OF d this s n]
      have "(\<exists>n b'' \<sigma>''. sizing_loop ops ctx dp (p + 1) b' \<sigma>' = Inr (n, b'', \<sigma>'') \<and>
                p + 1 \<le> n \<and> n < 10000 \<and>
                sizing_call ops ctx dp n b0 \<sigma>0 = (True, b'', \<sigma>'') \<and>
                (\<forall>k\<in>{1..<n}. \<not> fst (sizing_call ops ctx dp k b0 \<sigma>0)))
           \<or> (sizing_loop ops ctx dp (p + 1) b' \<sigma>' = Inl too_many_pages \<and>
                (\<forall>k\<in>{1..<10000}. \<not> fst (sizing_call ops ctx dp k b0 \<sigma>0)))" .
      then show ?thesis unfolding rec
        by (metis add_leD1)
    qed
  qed
qed










lemma emit_page_count:
  "page_count (rs_context (emit_page ops dp wm st)) = page_count (rs_context st)"
  by (simp add: emit_page_def Let_def case_prod_beta inc_page_number_def)


lemma emit_loop_page_count:
  "page_count (rs_context (emit_loop ops dp wm st)) = page_count (rs_context st)"
proof (induction ops dp wm st rule: emit_loop.induct)
  case (1 ops dp wm st)
  show ?case
  proof (cases "emit_continues st")
    case True
    then have "emit_loop ops dp wm st = emit_loop ops dp wm (emit_page ops dp wm st)"
      by (subst emit_loop.simps) simp
    then show ?thesis using "1.IH"[OF True] by (simp add: emit_page_count)
  next
    case False
    then have "emit_loop ops dp wm st = st" by (subst emit_loop.simps) simp
    then show ?thesis by simp
  qed
qed





text \<open>The example report's properties, and the band that never completes.\<close>

lemma props_a4_value:
  "props_a4 =
     \<lparr>dp_id = ''0_document_properties'', page_format = PageFormat_a4,
      orientation = Orientation_portrait, page_width = 595, page_height = 842,
      content_height = 762, margin_left = 20, margin_top = 20, margin_right = 20,
      margin_bottom = 20, pattern_locale = JStr ''en'', pattern_currency_symbol = JStr ''$'',
      header = False, header_display = BandDisplay_never, header_size = 0, footer = True,
      footer_display = BandDisplay_always, footer_size = 40\<rparr>"
  by code_simp

lemma props_a4_available: "0 < available_height props_a4 k"
  by (simp add: props_a4_value available_height_def band_shown_def)

lemma stuck_pass:
  assumes "stuck b \<sigma>" "0 < h"
  shows "\<not> fst (ReportBand_create_render_elements idle_ops ctx h b \<sigma>) \<and>
         stuck (fst (snd (ReportBand_create_render_elements idle_ops ctx h b \<sigma>)))
               (snd (snd (ReportBand_create_render_elements idle_ops ctx h b \<sigma>)))"
proof -
  let ?st0 = "pass_init b \<sigma>"
  have e: "elem_class (\<sigma> 0) = OtherElement" "predecessor (\<sigma> 0) = None" "el_y (\<sigma> 0) = 0"
    using assms(1) by (simp_all add: stuck_def store_abc_def mk_element_def)
  have s: "sorted_elements b = [0]" "allow_page_break b" "page_y b = 0"
    using assms(1) by (simp_all add: stuck_def)
  have c0: "pass_continues ?st0" using s by (simp add: pass_continues_def pass_init_def)
  have np: "\<not> predecessor_pending (ps_store ?st0) (completed_elements ?st0)
              (ps_store ?st0 (sorted_elements (ps_band ?st0) ! ps_i ?st0))"
    using s e by (simp add: pass_init_def predecessor_pending_def)
  have cl: "elem_class (ps_store ?st0 (sorted_elements (ps_band ?st0) ! ps_i ?st0)) \<noteq> PageBreakElement"
    using s e by (simp add: pass_init_def)
  have pr: "is_printed idle_ops ctx (ps_store ?st0 (sorted_elements (ps_band ?st0) ! ps_i ?st0))"
    by (simp add: idle_ops_def)
  have off: "offset_y (ps_band ?st0) (ps_store ?st0)
               (ps_store ?st0 (sorted_elements (ps_band ?st0) ! ps_i ?st0)) < h"
    using s e assms(2) by (simp add: pass_init_def offset_y_def)
  have b1: "pass_body idle_ops ctx h ?st0 = ?st0\<lparr>ps_i := 1\<rparr>"
    unfolding pass_body_render[OF np cl pr off]
    using s by (simp add: Let_def idle_ops_def pass_init_def)
  have stop: "\<not> pass_continues (pass_body idle_ops ctx h ?st0)"
    unfolding b1 using s by (simp add: pass_continues_def pass_init_def)
  have L: "pass_loop idle_ops ctx h ?st0 = ?st0\<lparr>ps_i := 1\<rparr>"
    using pass_loop_after_stop[OF pass_reaches.start c0 stop] b1 by simp
  show ?thesis
    unfolding ReportBand_create_render_elements_def L
    using s assms(1)
    by (simp add: pass_finish_def pass_init_def Let_def clear_successors_def stuck_def)
qed

lemma stuck_sizing_call:
  assumes "stuck b \<sigma>" "\<And>k. 0 < available_height dp k"
  shows "(k \<ge> 1 \<longrightarrow> \<not> fst (sizing_call idle_ops ctx dp k b \<sigma>)) \<and>
         stuck (fst (snd (sizing_call idle_ops ctx dp k b \<sigma>)))
               (snd (snd (sizing_call idle_ops ctx dp k b \<sigma>)))"
proof (induction k)
  case 0
  show ?case using assms(1) by simp
next
  case (Suc k)
  then have st: "stuck (fst (snd (sizing_call idle_ops ctx dp k b \<sigma>)))
                       (snd (snd (sizing_call idle_ops ctx dp k b \<sigma>)))"
    by simp
  show ?case
    using stuck_pass[OF st assms(2)[of "Suc k"], of ctx]
    by (simp add: case_prod_beta)
qed

text \<open>
  C5. The sizing phase of the fixed-page renderer ends, for every content band, in one of
  two ways. Either a call of the pagination step reports done; it is call number \<open>n\<close> with
  \<open>n < 10000\<close>, the calls before it did not report done, and the renderer goes on with
  \<open>n\<close> as the page count. Or none of the calls 1 to 9999 reports done, and the renderer
  raises the fatal error. (The loop is a total function: \<open>sizing_loop\<close> is defined with
  a termination proof, and so is each call of the pagination step.)
\<close>

theorem sizing_done_or_fatal:
  assumes "ReportBand_prepare ops (rs_context st) True False (content_band st) (elements st) = (cb, \<sigma>1)"
  shows "(\<exists>n. 1 \<le> n \<and> n < 10000 \<and> fst (sizing_call ops (rs_context st) dp n cb \<sigma>1) \<and>
            (\<forall>k\<in>{1..<n}. \<not> fst (sizing_call ops (rs_context st) dp k cb \<sigma>1)) \<and>
            (\<exists>st'. DocumentPDFRenderer_render ops dp add_watermark file_exists st = Inr st' \<and>
                   page_count (rs_context st') = n))
       \<or> ((\<forall>k\<in>{1..<10000}. \<not> fst (sizing_call ops (rs_context st) dp k cb \<sigma>1)) \<and>
           DocumentPDFRenderer_render ops dp add_watermark file_exists st = Inl too_many_pages)"
proof -
  have start: "snd (sizing_call ops (rs_context st) dp (1 - 1) cb \<sigma>1) = (cb, \<sigma>1)" by simp
  have none: "\<forall>k\<in>{1..<1::nat}. \<not> fst (sizing_call ops (rs_context st) dp k cb \<sigma>1)" by simp
  from sizing_from[OF _ _ start none]
  consider (fin) n b' \<sigma>' where
      "sizing_loop ops (rs_context st) dp 1 cb \<sigma>1 = Inr (n, b', \<sigma>')" "1 \<le> n" "n < 10000"
      "sizing_call ops (rs_context st) dp n cb \<sigma>1 = (True, b', \<sigma>')"
      "\<forall>k\<in>{1..<n}. \<not> fst (sizing_call ops (rs_context st) dp k cb \<sigma>1)"
    | (fatal) "sizing_loop ops (rs_context st) dp 1 cb \<sigma>1 = Inl too_many_pages"
      "\<forall>k\<in>{1..<10000}. \<not> fst (sizing_call ops (rs_context st) dp k cb \<sigma>1)"
    by auto
  then show ?thesis
  proof cases
    case fin
    let ?st1 = "st\<lparr>content_band := b', elements := \<sigma>', rs_context := set_page_count n (rs_context st)\<rparr>"
    let ?st2 = "emit_loop ops dp (watermark_size add_watermark file_exists dp) ?st1"
    have pc: "page_count (rs_context ?st2) = n"
      by (simp add: emit_loop_page_count set_page_count_def)
    have "\<exists>st'. DocumentPDFRenderer_render ops dp add_watermark file_exists st = Inr st' \<and>
                page_count (rs_context st') = n"
      using assms fin(1) pc by (simp add: DocumentPDFRenderer_render_def Let_def)
    then show ?thesis using fin by auto
  next
    case fatal
    have "DocumentPDFRenderer_render ops dp add_watermark file_exists st = Inl too_many_pages"
      using assms fatal(1) by (simp add: DocumentPDFRenderer_render_def)
    then show ?thesis using fatal(2) by blast
  qed
qed

theorem sizing_done_or_fatal_witness:
  "\<not> fst (sizing_call box_ops ctx0 props_a4 1
           (fst (ReportBand_prepare box_ops ctx0 True False (new_band BandType_content [0, 1]) (store_two 1000)))
           (snd (ReportBand_prepare box_ops ctx0 True False (new_band BandType_content [0, 1]) (store_two 1000)))) \<and>
   fst (sizing_call box_ops ctx0 props_a4 2
           (fst (ReportBand_prepare box_ops ctx0 True False (new_band BandType_content [0, 1]) (store_two 1000)))
           (snd (ReportBand_prepare box_ops ctx0 True False (new_band BandType_content [0, 1]) (store_two 1000)))) \<and>
   (\<exists>st'. DocumentPDFRenderer_render box_ops props_a4 False False (report_state [] [0, 1] [2] (store_two 1000)) = Inr st' \<and>
          page_count (rs_context st') = 2) \<and>
   DocumentPDFRenderer_render idle_ops props_a4 False False (report_state [] [0] [] store_abc) =
     Inl too_many_pages"
proof -
  let ?st = "report_state [] [0, 1] [2] (store_two 1000)"
  let ?p = "ReportBand_prepare box_ops ctx0 True False (new_band BandType_content [0, 1]) (store_two 1000)"
  have h: "ReportBand_prepare box_ops (rs_context ?st) True False (content_band ?st) (elements ?st) =
             (fst ?p, snd ?p)"
    by (simp add: report_state_def)
  have ctx: "rs_context ?st = ctx0" by (simp add: report_state_def)
  have c1: "\<not> fst (sizing_call box_ops ctx0 props_a4 1 (fst ?p) (snd ?p))" by code_simp
  have c2: "fst (sizing_call box_ops ctx0 props_a4 2 (fst ?p) (snd ?p))" by code_simp
  from sizing_done_or_fatal[OF h, of props_a4 False False]
  consider (fin) n st' where "1 \<le> n" "n < 10000"
      "\<forall>k\<in>{1..<n}. \<not> fst (sizing_call box_ops ctx0 props_a4 k (fst ?p) (snd ?p))"
      "fst (sizing_call box_ops ctx0 props_a4 n (fst ?p) (snd ?p))"
      "DocumentPDFRenderer_render box_ops props_a4 False False ?st = Inr st'"
      "page_count (rs_context st') = n"
    | (fatal) "\<forall>k\<in>{1..<10000}. \<not> fst (sizing_call box_ops ctx0 props_a4 k (fst ?p) (snd ?p))"
    unfolding ctx by blast
  then have done_example:
    "\<exists>st'. DocumentPDFRenderer_render box_ops props_a4 False False ?st = Inr st' \<and>
                page_count (rs_context st') = 2"
  proof cases
    case fin
    have "n \<noteq> 1" using fin(4) c1 by auto
    moreover have "\<not> 2 < n"
    proof
      assume "2 < n"
      then have "2 \<in> {1..<n}" by simp
      with fin(3) c2 show False by blast
    qed
    ultimately have "n = 2" using fin(1) by simp
    with fin(5,6) show ?thesis by simp
  next
    case fatal
    have "(2::nat) \<in> {1..<10000}" by simp
    with fatal c2 show ?thesis by blast
  qed
  let ?su = "report_state [] [0] [] store_abc"
  let ?q = "ReportBand_prepare idle_ops ctx0 True False (new_band BandType_content [0]) store_abc"
  have hq: "ReportBand_prepare idle_ops (rs_context ?su) True False (content_band ?su) (elements ?su) =
             (fst ?q, snd ?q)"
    by (simp add: report_state_def)
  have cq: "rs_context ?su = ctx0" by (simp add: report_state_def)
  have sq: "stuck (fst ?q) (snd ?q)" by code_simp
  have never: "k \<ge> 1 \<Longrightarrow> \<not> fst (sizing_call idle_ops ctx0 props_a4 k (fst ?q) (snd ?q))" for k
    using stuck_sizing_call[OF sq props_a4_available, of k ctx0] by simp
  from sizing_done_or_fatal[OF hq, of props_a4 False False]
  have fatal_example:
    "DocumentPDFRenderer_render idle_ops props_a4 False False ?su = Inl too_many_pages"
    unfolding cq using never by blast
  from c1 c2 done_example fatal_example show ?thesis by simp
qed



section \<open>Row rendering\<close>

text \<open>When the header's display policy is \<open>never\<close>, the row renderer renders the content
  band only: the footer's condition reads the header's policy.\<close>

lemma xlsx_render_header_never:
  "header_display dp = BandDisplay_never \<Longrightarrow>
   DocumentXLSXRenderer_render ops dp st =
     render_content ops \<lparr>xs_bands = st, xs_row = 0, worksheet = []\<rparr>"
  by (simp add: DocumentXLSXRenderer_render_def)

text \<open>
  C2, at the input where the code departs from it. The report of \<open>data_a4\<close> has no header
  (so the header's policy is \<open>never\<close>) and a footer on every page. Element 0 is in the
  content band, element 2 in the footer band. The row renderer writes the cells of
  element 0 only: the footer rows are not emitted.
\<close>

theorem xlsx_footer_follows_header_display:
  "header_display props_a4 = BandDisplay_never \<and>
   footer props_a4 \<and> footer_display props_a4 = BandDisplay_always \<and>
   doc_elements (footer_band (report_state [] [0] [2] store_abc)) = [2] \<and>
   map fst (worksheet (DocumentXLSXRenderer_render box_ops props_a4
                         (report_state [] [0] [2] store_abc))) = [0]"
  by code_simp

end
